theory Spec2Isabelle
  imports Complex_Main
begin

section \<open>Python values and library functions used by add_icons.py\<close>

text \<open>
  The exceptions that the functions of add_icons.py can meet. \<open>Exception msg\<close> is a plain
  \<^verbatim>\<open>Exception(msg)\<close>; it is neither a FileNotFoundError nor a CalledProcessError.
\<close>

datatype exn =
    ZeroDivisionError
  | IndexError
  | FileNotFoundError
  | CalledProcessError
  | PermissionError
  | Exception string

text \<open>
  Python's \<^verbatim>\<open>a // b\<close> on ints rounds towards minus infinity, as \<open>div\<close> on \<open>int\<close>
  does, and raises when the divisor is zero.
\<close>

definition py_floordiv :: "int \<Rightarrow> int \<Rightarrow> exn + int" where
  "py_floordiv a b = (if b \<noteq> 0 then Inr (a div b) else Inl ZeroDivisionError)"

text \<open>
  Python's \<^verbatim>\<open>xs[i]\<close> on a list: an index from 0 up to the length reads from the
  front, an index from minus the length up to -1 reads from the back, any other raises.
\<close>

definition py_getitem :: "'a list \<Rightarrow> int \<Rightarrow> exn + 'a" where
  "py_getitem xs i =
     (if 0 \<le> i \<and> i < int (length xs) then Inr (xs ! nat i)
      else if - int (length xs) \<le> i \<and> i < 0 then Inr (xs ! nat (int (length xs) + i))
      else Inl IndexError)"

text \<open>
  \<^verbatim>\<open>str.lower()\<close> and \<^verbatim>\<open>str.upper()\<close> on the ASCII letters. A \<open>char\<close> is a byte,
  so the letters outside ASCII (which Python also converts) are left as they are.
\<close>

definition lower_char :: "char \<Rightarrow> char" where
  "lower_char c =
     (case map_of (zip ''ABCDEFGHIJKLMNOPQRSTUVWXYZ'' ''abcdefghijklmnopqrstuvwxyz'') c of
        Some l \<Rightarrow> l
      | None \<Rightarrow> c)"

definition upper_char :: "char \<Rightarrow> char" where
  "upper_char c =
     (case map_of (zip ''abcdefghijklmnopqrstuvwxyz'' ''ABCDEFGHIJKLMNOPQRSTUVWXYZ'') c of
        Some u \<Rightarrow> u
      | None \<Rightarrow> c)"

definition lower :: "string \<Rightarrow> string" where
  "lower s = map lower_char s"

definition upper :: "string \<Rightarrow> string" where
  "upper s = map upper_char s"

text \<open>\<^verbatim>\<open>sub in s\<close> on strings: \<open>sub\<close> occurs in \<open>s\<close> as a contiguous run.\<close>

fun starts_with :: "string \<Rightarrow> string \<Rightarrow> bool" where
  "starts_with s [] = True"
| "starts_with [] (p # ps) = False"
| "starts_with (c # cs) (p # ps) = (c = p \<and> starts_with cs ps)"

fun str_contains :: "string \<Rightarrow> string \<Rightarrow> bool" where
  "str_contains [] sub = (sub = [])"
| "str_contains (c # cs) sub = (starts_with (c # cs) sub \<or> str_contains cs sub)"

text \<open>\<^verbatim>\<open>str(n)\<close> for an int: decimal digits, with a minus sign when negative.\<close>

definition digit_char :: "nat \<Rightarrow> char" where
  "digit_char d = ''0123456789'' ! d"

function str_nat :: "nat \<Rightarrow> string" where
  "str_nat n = (if n < 10 then [digit_char n] else str_nat (n div 10) @ [digit_char (n mod 10)])"
  by pat_completeness auto
termination
  by (relation "measure (\<lambda>n. n)") auto

declare str_nat.simps [simp del]

definition str_int :: "int \<Rightarrow> string" where
  "str_int i = (if i < 0 then CHR ''-'' # str_nat (nat (- i)) else str_nat (nat i))"

text \<open>
  \<^verbatim>\<open>f"{n:06d}"\<close>: the decimal digits padded with zeros on the left to six characters
  (the sign, when there is one, comes first and counts for the width).
\<close>

definition format_06d :: "int \<Rightarrow> string" where
  "format_06d i =
     (if i < 0
      then CHR ''-'' # replicate (5 - length (str_nat (nat (- i)))) CHR ''0'' @ str_nat (nat (- i))
      else replicate (6 - length (str_nat (nat i))) CHR ''0'' @ str_nat (nat i))"

text \<open>\<^verbatim>\<open>str.rfind(c)\<close> for a one-character needle: the highest index, or -1.\<close>

definition rfind :: "string \<Rightarrow> char \<Rightarrow> int" where
  "rfind p c =
     (case filter (\<lambda>i. p ! i = c) (rev [0 ..< length p]) of [] \<Rightarrow> - 1 | i # _ \<Rightarrow> int i)"

text \<open>
  \<^verbatim>\<open>os.path.splitext\<close> as CPython's posixpath has it (genericpath._splitext with
  separator \<^verbatim>\<open>/\<close> and extension separator \<^verbatim>\<open>.\<close>):
  \<^verbatim>\<open>
    sepIndex = p.rfind(sep)
    dotIndex = p.rfind(extsep)
    if dotIndex > sepIndex:
        # skip all leading dots
        filenameIndex = sepIndex + 1
        while filenameIndex < dotIndex:
            if p[filenameIndex:filenameIndex+1] != extsep:
                return p[:dotIndex], p[dotIndex:]
            filenameIndex += 1
    return p, p[:0]
  \<close>
  The loop is \<open>skip_leading_dots\<close>: it answers whether the \<^verbatim>\<open>return\<close> inside it is taken.
\<close>

function skip_leading_dots :: "string \<Rightarrow> nat \<Rightarrow> nat \<Rightarrow> bool" where
  "skip_leading_dots p filenameIndex dotIndex =
     (if filenameIndex < dotIndex
      then (if p ! filenameIndex \<noteq> CHR ''.'' then True
            else skip_leading_dots p (Suc filenameIndex) dotIndex)
      else False)"
  by pat_completeness auto
termination
  by (relation "measure (\<lambda>(p, filenameIndex, dotIndex). dotIndex - filenameIndex)") auto

declare skip_leading_dots.simps [simp del]

definition splitext :: "string \<Rightarrow> string \<times> string" where
  "splitext p =
     (let sepIndex = rfind p CHR ''/'';
          dotIndex = rfind p CHR ''.''
      in if dotIndex > sepIndex \<and> skip_leading_dots p (nat (sepIndex + 1)) (nat dotIndex)
         then (take (nat dotIndex) p, drop (nat dotIndex) p)
         else (p, []))"

text \<open>\<^verbatim>\<open>os.path.join(a, b)\<close> of posixpath, for two components.\<close>

definition path_join :: "string \<Rightarrow> string \<Rightarrow> string" where
  "path_join a b =
     (if starts_with b ''/'' then b
      else if a = [] \<or> last a = CHR ''/'' then a @ b
      else a @ ''/'' @ b)"

section \<open>create_icon_overlay\<close>

text \<open>
  A frame buffer: its shape (height, width), the decoded pixel data (opaque, named by a
  number), and the drawing calls made on it, in order. Drawing mutates the buffer in the
  source; here it appends to \<open>drawn\<close>.
\<close>

type_synonym color = "int \<times> int \<times> int"

datatype draw =
    Rectangle "int \<times> int" "int \<times> int" color int
  | PutText string "int \<times> int" rat color int

record frame =
  frame_height :: int
  frame_width :: int
  pixels :: nat
  drawn :: "draw list"

text \<open>
  Lines 48-61 of create_icon_overlay: which action is highlighted. \<open>None\<close> for
  \<open>frames_per_action\<close> or \<open>total_frames\<close> is Python's \<^verbatim>\<open>None\<close>; the result
  \<open>Inr None\<close> is \<^verbatim>\<open>current_action = None\<close>. \<^verbatim>\<open>if frames_per_action:\<close> holds for every
  int other than 0.
\<close>

definition current_action ::
  "string list \<Rightarrow> int \<Rightarrow> int option \<Rightarrow> int option \<Rightarrow> exn + string option" where
  "current_action action_list frame_number frames_per_action total_frames =
     (case (case (frames_per_action, total_frames) of
              (None, Some n_total) \<Rightarrow>
                (case py_floordiv n_total (int (length action_list)) of
                   Inl e \<Rightarrow> Inl e
                 | Inr q \<Rightarrow> Inr (Some q))
            | _ \<Rightarrow> Inr frames_per_action) of
        Inl e \<Rightarrow> Inl e
      | Inr None \<Rightarrow> Inr None
      | Inr (Some fpa) \<Rightarrow>
          if fpa \<noteq> 0 then
            (let action_index = frame_number div fpa
             in if action_index < int (length action_list)
                then (case py_getitem action_list action_index of
                        Inl e \<Rightarrow> Inl e
                      | Inr a \<Rightarrow> Inr (Some (lower a)))
                else Inr None)
          else Inr None)"

text \<open>
  The dictionary \<^verbatim>\<open>icon_positions\<close>, in insertion order (the order the drawing loop
  visits it), for a frame of the given height and width.
\<close>

definition icon_positions :: "int \<Rightarrow> int \<Rightarrow> (string \<times> int \<times> int) list" where
  "icon_positions height width =
     (let icon_spacing = 100;
          icon_y_offset = height - 150;
          center_x = width div 2
      in [(''w'', (center_x - icon_spacing, icon_y_offset - icon_spacing)),
          (''a'', (center_x - icon_spacing, icon_y_offset)),
          (''s'', (center_x, icon_y_offset)),
          (''d'', (center_x + icon_spacing, icon_y_offset))])"

text \<open>
  The body of the drawing loop for one icon: the four drawing calls it makes.
  \<open>getTextSize\<close> is \<^verbatim>\<open>cv2.getTextSize(text, font, 2.0, 3)[0]\<close>, the (width, height) of
  the rendered letter, a function of OpenCV taken as a parameter.
\<close>

definition icon_draws ::
  "(string \<Rightarrow> int \<times> int) \<Rightarrow> string option \<Rightarrow> string \<times> int \<times> int \<Rightarrow> draw list" where
  "icon_draws getTextSize current = (\<lambda>(key, (x, y)).
     (let icon_radius = 40;
          is_active = (Some key = current);
          color = (if is_active then (0, 255, 0) else (128, 128, 128));
          border_color = (if is_active then (255, 255, 255) else (64, 64, 64));
          border_thickness = (if is_active then 3 else 1);
          font_scale = 2;
          font_thickness = 3;
          text_size = getTextSize (upper key);
          text_x = x - fst text_size div 2;
          text_y = y + snd text_size div 2
      in [Rectangle (x - icon_radius, y - icon_radius) (x + icon_radius, y + icon_radius)
            color (- 1),
          Rectangle (x - icon_radius, y - icon_radius) (x + icon_radius, y + icon_radius)
            border_color border_thickness,
          PutText (upper key) (text_x, text_y) font_scale (0, 0, 0) (font_thickness + 2),
          PutText (upper key) (text_x, text_y) font_scale (255, 255, 255) font_thickness]))"

definition create_icon_overlay ::
  "(string \<Rightarrow> int \<times> int) \<Rightarrow> frame \<Rightarrow> string list \<Rightarrow> int \<Rightarrow> rat \<Rightarrow> int option \<Rightarrow> int option
     \<Rightarrow> exn + frame" where
  "create_icon_overlay getTextSize frame action_list frame_number fps frames_per_action total_frames =
     (case current_action action_list frame_number frames_per_action total_frames of
        Inl e \<Rightarrow> Inl e
      | Inr current \<Rightarrow>
          Inr (foldl (\<lambda>fr icon. fr\<lparr>drawn := drawn fr @ icon_draws getTextSize current icon\<rparr>)
                 frame (icon_positions (frame_height frame) (frame_width frame))))"

section \<open>get_ffmpeg_command\<close>

text \<open>
  What a \<^verbatim>\<open>subprocess.run\<close> call does: it raises, or it completes with a return code,
  the captured standard output and the captured standard error.
\<close>

datatype proc =
    ProcRaised exn
  | ProcDone int string string

text \<open>The lines the program prints, one constructor for each \<^verbatim>\<open>print\<close> statement.\<close>

datatype message =
    Libx264NotAvailable
  | CouldNotOpenVideo string
  | CalculatedFramesPerAction int
  | VideoPropertiesHeader
  | PropResolution int int
  | PropTotalFrames int
  | PropFPS rat
  | PropDuration rat
  | PropActions "string list"
  | PropFramesPerAction int
  | ProcessingVideoFrames
  | Progress rat int int
  | FramesProcessed
  | RunningFfmpegCommand "string list"
  | EncodingComplete
  | OutputSavedTo string
  | FfmpegErrorText string
  | FallingBackToOpenCV
  | FfmpegNotAvailable
  | CouldNotReopenVideo
  | CouldNotCreateOutput string
  | FallbackProgress rat int int
  | FallbackComplete
  | OpenCVCompatibilityNote
  | FallbackAlsoFailed exn
  | ErrorRunningFfmpeg exn

text \<open>
  The \<^verbatim>\<open>try\<close> block that the mp4, avi and default branches each contain (lines 149-163,
  199-210 and 230-241): the arguments it appends to the command and what it prints.
  \<open>codecs\<close> is what \<^verbatim>\<open>subprocess.run(['ffmpeg', '-codecs'], ...)\<close> does. The bare
  \<^verbatim>\<open>except:\<close> catches whatever the call raises.
\<close>

definition libx264_or_default :: "proc \<Rightarrow> string list \<times> message list" where
  "libx264_or_default codecs =
     (case codecs of
        ProcDone returncode stdout stderr \<Rightarrow>
          if str_contains stdout ''libx264''
          then ([''-c:v'', ''libx264''] @ [''-crf'', ''23''], [])
          else ([''-q:v'', ''3''], [Libx264NotAvailable])
      | ProcRaised e \<Rightarrow> ([''-c:v'', ''libx264''] @ [''-crf'', ''23''], []))"

text \<open>\<^verbatim>\<open>ffmpeg_version and ffmpeg_version >= 5\<close>, for the int or None of get_ffmpeg_version.\<close>

definition version_at_least_5 :: "int option \<Rightarrow> bool" where
  "version_at_least_5 ffmpeg_version =
     (case ffmpeg_version of None \<Rightarrow> False | Some v \<Rightarrow> v \<noteq> 0 \<and> v \<ge> 5)"

text \<open>
  get_ffmpeg_command. Beside the arguments of the source function it takes what the
  function obtains from outside: \<open>str_float\<close>, Python's \<^verbatim>\<open>str\<close> on a float;
  \<open>ffmpeg_version\<close>, the result of \<^verbatim>\<open>get_ffmpeg_version()\<close>; and \<open>codecs\<close>, the outcome
  of the codec-listing call. It returns the command and the lines printed.
\<close>

definition get_ffmpeg_command ::
  "(rat \<Rightarrow> string) \<Rightarrow> int option \<Rightarrow> proc \<Rightarrow> string \<Rightarrow> string \<Rightarrow> rat \<Rightarrow> int \<Rightarrow> int
     \<Rightarrow> string list \<times> message list" where
  "get_ffmpeg_command str_float ffmpeg_version codecs input_pattern output_path fps width height =
     (let output_ext = lower (snd (splitext output_path));
          scale = ''scale='' @ str_int width @ '':'' @ str_int height
      in if output_ext = ''.mp4'' then
           (let cmd = [''ffmpeg'', ''-y'', ''-framerate'', str_float fps, ''-i'', input_pattern,
                       ''-pix_fmt'', ''yuv420p'', ''-vf'', scale];
                (codec_args, printed) = libx264_or_default codecs;
                cmd = cmd @ codec_args;
                cmd = (if version_at_least_5 ffmpeg_version
                       then cmd @ [''-preset'', ''medium''] @ [''-movflags'', ''+faststart'']
                       else cmd)
            in (cmd @ [output_path], printed))
         else if output_ext = ''.webm'' then
           ([''ffmpeg'', ''-y'', ''-framerate'', str_float fps, ''-i'', input_pattern,
             ''-c:v'', ''libvpx-vp9'', ''-crf'', ''30'', ''-b:v'', ''0'',
             ''-pix_fmt'', ''yuv420p'', ''-vf'', scale, output_path], [])
         else if output_ext = ''.avi'' then
           (let cmd = [''ffmpeg'', ''-y'', ''-framerate'', str_float fps, ''-i'', input_pattern,
                       ''-pix_fmt'', ''yuv420p'', ''-vf'', scale];
                (codec_args, printed) = libx264_or_default codecs;
                cmd = cmd @ codec_args;
                cmd = (if version_at_least_5 ffmpeg_version
                       then cmd @ [''-preset'', ''medium'']
                       else cmd)
            in (cmd @ [output_path], printed))
         else
           (let cmd = [''ffmpeg'', ''-y'', ''-framerate'', str_float fps, ''-i'', input_pattern,
                       ''-pix_fmt'', ''yuv420p'', ''-vf'', scale];
                (codec_args, printed) = libx264_or_default codecs;
                cmd = cmd @ codec_args;
                cmd = (if version_at_least_5 ffmpeg_version
                       then cmd @ [''-preset'', ''medium''] @ [''-movflags'', ''+faststart'']
                       else cmd)
            in (cmd @ [output_path], printed)))"

section \<open>process_video\<close>

text \<open>
  Everything process_video obtains from outside itself during one run: the answers of the
  video capture, of the image writer, of the three kinds of ffmpeg invocation and of the
  fallback writer. A \<^verbatim>\<open>cap.read()\<close> takes the next entry of \<open>cap_reads\<close>: \<open>Some f\<close> is
  \<^verbatim>\<open>(True, f)\<close>, \<open>None\<close> is \<^verbatim>\<open>(False, _)\<close> (a frame that could not be decoded), and
  past the end of the list every read is \<^verbatim>\<open>(False, _)\<close>.
\<close>

record world =
  cap_isOpened :: bool
  cap_width :: int
  cap_height :: int
  cap_frame_count :: int
  cap_fps :: rat
  cap_reads :: "frame option list"
  imwrite_ok :: "int \<Rightarrow> bool"
  mkdtemp :: string
  ffmpeg_check :: proc
  ffmpeg_version_probe :: "int option"
  ffmpeg_codecs :: proc
  ffmpeg_run :: "string list \<Rightarrow> proc"
  reopen_isOpened :: bool
  reopen_reads :: "frame option list"
  writer_isOpened :: bool
  getTextSize :: "string \<Rightarrow> int \<times> int"
  str_float :: "rat \<Rightarrow> string"

text \<open>What a run does to its surroundings, in order.\<close>

datatype event =
    Print message
  | TempDirCreated string
  | TempDirRemoved string
  | Imwrite string frame bool
  | FfmpegRun "string list"
  | WriterOpened string string rat "int \<times> int"
  | WriterWrite frame

record sys =
  temp_dir_exists :: bool
  events :: "event list"

definition emit :: "event \<Rightarrow> sys \<Rightarrow> sys" where
  "emit e s = s\<lparr>events := events s @ [e]\<rparr>"

definition emits :: "event list \<Rightarrow> sys \<Rightarrow> sys" where
  "emits es s = s\<lparr>events := events s @ es\<rparr>"

text \<open>How a run that returns came to its \<^verbatim>\<open>return\<close> (or to the end of the function).\<close>

datatype run_end =
    InputOpenFailed
  | EncodedWithFfmpeg
  | EncodedWithFallback
  | FfmpegFailed exn
  | FallbackReopenFailed
  | FallbackWriterFailed
  | FallbackFailed exn

text \<open>
  \<^verbatim>\<open>with tempfile.TemporaryDirectory() as temp_dir:\<close> the directory is created, the body
  runs, and the directory is removed when the body is left, by falling off its end, by
  \<^verbatim>\<open>return\<close> or by an exception.
\<close>

definition with_TemporaryDirectory ::
  "string \<Rightarrow> (string \<Rightarrow> sys \<Rightarrow> 'a \<times> sys) \<Rightarrow> sys \<Rightarrow> 'a \<times> sys" where
  "with_TemporaryDirectory temp_dir body s =
     (let (r, s') = body temp_dir (emit (TempDirCreated temp_dir) (s\<lparr>temp_dir_exists := True\<rparr>))
      in (r, emit (TempDirRemoved temp_dir) (s'\<lparr>temp_dir_exists := False\<rparr>)))"

text \<open>
  The frame loop of lines 291-309. The result is the final \<open>frame_count\<close>, or the
  exception that left the loop.
\<close>

fun render_loop ::
  "world \<Rightarrow> string \<Rightarrow> string list \<Rightarrow> rat \<Rightarrow> int \<Rightarrow> int \<Rightarrow> frame option list \<Rightarrow> int \<Rightarrow> sys
     \<Rightarrow> (exn + int) \<times> sys" where
  "render_loop w temp_dir action_list actual_fps frames_per_action total_frames [] frame_count s =
     (Inr frame_count, s)"
| "render_loop w temp_dir action_list actual_fps frames_per_action total_frames (None # reads) frame_count s =
     (Inr frame_count, s)"
| "render_loop w temp_dir action_list actual_fps frames_per_action total_frames (Some frame # reads) frame_count s =
     (case create_icon_overlay (getTextSize w) frame action_list frame_count actual_fps
             (Some frames_per_action) (Some total_frames) of
        Inl e \<Rightarrow> (Inl e, s)
      | Inr frame_with_icons \<Rightarrow>
          (let frame_path = path_join temp_dir (''frame_'' @ format_06d frame_count @ ''.png'');
               s1 = emit (Imwrite frame_path frame_with_icons (imwrite_ok w frame_count)) s;
               frame_count1 = frame_count + 1
           in if frame_count1 mod 100 = 0
              then (if total_frames = 0 then (Inl ZeroDivisionError, s1)
                    else render_loop w temp_dir action_list actual_fps frames_per_action total_frames
                           reads frame_count1
                           (emit (Print (Progress (of_int frame_count1 / of_int total_frames * 100)
                                           frame_count1 total_frames)) s1))
              else render_loop w temp_dir action_list actual_fps frames_per_action total_frames
                     reads frame_count1 s1))"

text \<open>The frame loop of the fallback, lines 364-381.\<close>

fun fallback_loop ::
  "world \<Rightarrow> string list \<Rightarrow> rat \<Rightarrow> int \<Rightarrow> int \<Rightarrow> frame option list \<Rightarrow> int \<Rightarrow> sys
     \<Rightarrow> (exn + int) \<times> sys" where
  "fallback_loop w action_list actual_fps frames_per_action total_frames [] frame_count s =
     (Inr frame_count, s)"
| "fallback_loop w action_list actual_fps frames_per_action total_frames (None # reads) frame_count s =
     (Inr frame_count, s)"
| "fallback_loop w action_list actual_fps frames_per_action total_frames (Some frame # reads) frame_count s =
     (case create_icon_overlay (getTextSize w) frame action_list frame_count actual_fps
             (Some frames_per_action) (Some total_frames) of
        Inl e \<Rightarrow> (Inl e, s)
      | Inr frame_with_icons \<Rightarrow>
          (let s1 = emit (WriterWrite frame_with_icons) s;
               frame_count1 = frame_count + 1
           in if frame_count1 mod 100 = 0
              then (if total_frames = 0 then (Inl ZeroDivisionError, s1)
                    else fallback_loop w action_list actual_fps frames_per_action total_frames
                           reads frame_count1
                           (emit (Print (FallbackProgress (of_int frame_count1 / of_int total_frames * 100)
                                           frame_count1 total_frames)) s1))
              else fallback_loop w action_list actual_fps frames_per_action total_frames
                     reads frame_count1 s1))"

text \<open>
  The handler of \<^verbatim>\<open>except (FileNotFoundError, subprocess.CalledProcessError)\<close>, lines
  343-392: the fallback through OpenCV's writer.
\<close>

definition fallback_encode ::
  "world \<Rightarrow> string \<Rightarrow> string \<Rightarrow> string list \<Rightarrow> rat \<Rightarrow> int \<Rightarrow> int \<Rightarrow> int \<Rightarrow> int \<Rightarrow> sys
     \<Rightarrow> run_end \<times> sys" where
  "fallback_encode w input_video_path output_video_path action_list actual_fps frames_per_action
       total_frames width height s =
     (let s = emit (Print FfmpegNotAvailable) s
      in if \<not> reopen_isOpened w
         then (FallbackReopenFailed, emit (Print CouldNotReopenVideo) s)
         else
           (let s = emit (WriterOpened output_video_path ''mp4v'' actual_fps (width, height)) s
            in if \<not> writer_isOpened w
               then (FallbackWriterFailed, emit (Print (CouldNotCreateOutput output_video_path)) s)
               else
                 (case fallback_loop w action_list actual_fps frames_per_action total_frames
                         (reopen_reads w) 0 s of
                    (Inl e, s') \<Rightarrow> (FallbackFailed e, emit (Print (FallbackAlsoFailed e)) s')
                  | (Inr frame_count, s') \<Rightarrow>
                      (EncodedWithFallback,
                       emits [Print FallbackComplete, Print (OutputSavedTo output_video_path),
                              Print OpenCVCompatibilityNote] s'))))"

text \<open>
  The two \<^verbatim>\<open>except\<close> clauses of the outer \<^verbatim>\<open>try\<close>, in their order: an exception
  \<open>e\<close> raised in the \<^verbatim>\<open>try\<close> block goes to the first clause that matches its class.
\<close>

definition encode_except ::
  "world \<Rightarrow> string \<Rightarrow> string \<Rightarrow> string list \<Rightarrow> rat \<Rightarrow> int \<Rightarrow> int \<Rightarrow> int \<Rightarrow> int \<Rightarrow> exn \<Rightarrow> sys
     \<Rightarrow> run_end \<times> sys" where
  "encode_except w input_video_path output_video_path action_list actual_fps frames_per_action
       total_frames width height e s =
     (if e = FileNotFoundError \<or> e = CalledProcessError
      then fallback_encode w input_video_path output_video_path action_list actual_fps
             frames_per_action total_frames width height s
      else (FfmpegFailed e, emit (Print (ErrorRunningFfmpeg e)) s))"

text \<open>
  The \<^verbatim>\<open>try\<close> statement of lines 317-396. The first call has \<^verbatim>\<open>check=True\<close>, so a
  non-zero return code there raises CalledProcessError.
\<close>

definition encode_stage ::
  "world \<Rightarrow> string \<Rightarrow> string \<Rightarrow> string list \<Rightarrow> rat \<Rightarrow> int \<Rightarrow> int \<Rightarrow> int \<Rightarrow> int \<Rightarrow> string \<Rightarrow> sys
     \<Rightarrow> run_end \<times> sys" where
  "encode_stage w input_video_path output_video_path action_list actual_fps frames_per_action
       total_frames width height temp_dir s =
     (case ffmpeg_check w of
        ProcRaised e \<Rightarrow>
          encode_except w input_video_path output_video_path action_list actual_fps
            frames_per_action total_frames width height e s
      | ProcDone returncode stdout stderr \<Rightarrow>
          if returncode \<noteq> 0
          then encode_except w input_video_path output_video_path action_list actual_fps
                 frames_per_action total_frames width height CalledProcessError s
          else
            (let (ffmpeg_cmd, printed) =
                   get_ffmpeg_command (str_float w) (ffmpeg_version_probe w) (ffmpeg_codecs w)
                     (path_join temp_dir ''frame_%06d.png'') output_video_path actual_fps width height;
                 s = emits (map Print printed) s;
                 s = emit (Print (RunningFfmpegCommand ffmpeg_cmd)) s;
                 s = emit (FfmpegRun ffmpeg_cmd) s
             in case ffmpeg_run w ffmpeg_cmd of
                  ProcRaised e \<Rightarrow>
                    encode_except w input_video_path output_video_path action_list actual_fps
                      frames_per_action total_frames width height e s
                | ProcDone returncode stdout stderr \<Rightarrow>
                    if returncode = 0
                    then (EncodedWithFfmpeg,
                          emits [Print EncodingComplete, Print (OutputSavedTo output_video_path)] s)
                    else encode_except w input_video_path output_video_path action_list actual_fps
                           frames_per_action total_frames width height (Exception ''FFmpeg failed'')
                           (emits [Print (FfmpegErrorText stderr), Print FallingBackToOpenCV] s)))"

text \<open>
  process_video. \<open>Inr r\<close> is a run that returns, \<open>Inl e\<close> one that an uncaught exception
  leaves. \<open>fps\<close> is the caller's frame rate argument.
\<close>

definition process_video ::
  "world \<Rightarrow> string \<Rightarrow> string \<Rightarrow> string list \<Rightarrow> rat \<Rightarrow> int option \<Rightarrow> sys
     \<Rightarrow> (exn + run_end) \<times> sys" where
  "process_video w input_video_path output_video_path action_list fps frames_per_action s =
     (if \<not> cap_isOpened w
      then (Inr InputOpenFailed, emit (Print (CouldNotOpenVideo input_video_path)) s)
      else
        (let width = cap_width w;
             height = cap_height w;
             total_frames = cap_frame_count w;
             actual_fps = cap_fps w
         in case (case frames_per_action of
                    None \<Rightarrow>
                      (case py_floordiv total_frames (int (length action_list)) of
                         Inl e \<Rightarrow> Inl e
                       | Inr q \<Rightarrow> Inr (q, emit (Print (CalculatedFramesPerAction q)) s))
                  | Some n \<Rightarrow> Inr (n, s)) of
              Inl e \<Rightarrow> (Inl e, s)
            | Inr (frames_per_action, s) \<Rightarrow>
                (let s = emits [Print VideoPropertiesHeader, Print (PropResolution width height),
                                Print (PropTotalFrames total_frames), Print (PropFPS actual_fps)] s
                 in if actual_fps = 0 then (Inl ZeroDivisionError, s)
                    else
                      (let s = emits [Print (PropDuration (of_int total_frames / actual_fps)),
                                      Print (PropActions action_list),
                                      Print (PropFramesPerAction frames_per_action)] s
                       in with_TemporaryDirectory (mkdtemp w)
                            (\<lambda>temp_dir s.
                               (let s = emit (Print ProcessingVideoFrames) s
                                in case render_loop w temp_dir action_list actual_fps
                                          frames_per_action total_frames (cap_reads w) 0 s of
                                     (Inl e, s) \<Rightarrow> (Inl e, s)
                                   | (Inr frame_count, s) \<Rightarrow>
                                       (let s = emit (Print FramesProcessed) s;
                                            (r, s) = encode_stage w input_video_path output_video_path
                                                       action_list actual_fps frames_per_action
                                                       total_frames width height temp_dir s
                                        in (Inr r, s)))) s))))"

section \<open>Observations on frames and runs\<close>

text \<open>
  The filled rectangles among drawing calls (OpenCV fills a rectangle whose thickness is
  negative), as pairs of opposite corners, in drawing order: the icon backgrounds.
\<close>

fun filled_rectangles :: "draw list \<Rightarrow> ((int \<times> int) \<times> (int \<times> int)) list" where
  "filled_rectangles [] = []"
| "filled_rectangles (Rectangle p q c t # ds) =
     (if t < 0 then (p, q) # filled_rectangles ds else filled_rectangles ds)"
| "filled_rectangles (PutText txt p sc c t # ds) = filled_rectangles ds"

text \<open>Kinds of events, for reading the record of a run.\<close>

fun is_temp_event :: "event \<Rightarrow> bool" where
  "is_temp_event (TempDirCreated d) = True"
| "is_temp_event (TempDirRemoved d) = True"
| "is_temp_event e = False"

fun is_encoder_event :: "event \<Rightarrow> bool" where
  "is_encoder_event (FfmpegRun cmd) = True"
| "is_encoder_event (WriterOpened p c r d) = True"
| "is_encoder_event e = False"

fun is_Imwrite :: "event \<Rightarrow> bool" where
  "is_Imwrite (Imwrite p f b) = True"
| "is_Imwrite e = False"

text \<open>The events that the two frame loops produce.\<close>

fun loop_event :: "event \<Rightarrow> bool" where
  "loop_event (Print (Progress r a b)) = True"
| "loop_event (Print (FallbackProgress r a b)) = True"
| "loop_event (Imwrite p f b) = True"
| "loop_event (WriterWrite f) = True"
| "loop_event e = False"


text \<open>
  \<open>extends Q s s'\<close>: the state \<open>s'\<close> comes from \<open>s\<close> by appending events that all
  satisfy \<open>Q\<close>, with the temporary directory as it was.
\<close>

definition extends :: "(event \<Rightarrow> bool) \<Rightarrow> sys \<Rightarrow> sys \<Rightarrow> bool" where
  "extends Q s s' \<longleftrightarrow>
     temp_dir_exists s' = temp_dir_exists s \<and>
     (\<exists>es. events s' = events s @ es \<and> (\<forall>e \<in> set es. Q e))"

text \<open>The state before a run: no temporary directory, nothing done yet.\<close>

definition sys0 :: sys where
  "sys0 = \<lparr>temp_dir_exists = False, events = []\<rparr>"

text \<open>The events that the frame loop of the first pass produces.\<close>

fun render_event :: "event \<Rightarrow> bool" where
  "render_event (Print (Progress r a b)) = True"
| "render_event (Imwrite p f b) = True"
| "render_event e = False"

text \<open>What is done with OpenCV's video writer.\<close>

fun is_writer_event :: "event \<Rightarrow> bool" where
  "is_writer_event (WriterOpened p c r d) = True"
| "is_writer_event (WriterWrite f) = True"
| "is_writer_event e = False"

text \<open>
  The value of \<open>frames_per_action\<close> after lines 275-277 of process_video, when the
  division there does not raise.
\<close>

definition resolved_fpa :: "world \<Rightarrow> string list \<Rightarrow> int option \<Rightarrow> int" where
  "resolved_fpa w al fpa =
     (case fpa of None \<Rightarrow> cap_frame_count w div int (length al) | Some n \<Rightarrow> n)"

text \<open>
  The run reaches the \<^verbatim>\<open>with\<close> statement: the capture opened, line 276 did not divide
  by zero and line 283 did not either.
\<close>

definition entered :: "world \<Rightarrow> string list \<Rightarrow> int option \<Rightarrow> bool" where
  "entered w al fpa \<longleftrightarrow> cap_isOpened w \<and> (fpa = None \<longrightarrow> al \<noteq> []) \<and> cap_fps w \<noteq> 0"

text \<open>The state in which the frame loop starts, for a run from the state \<open>s\<close>.\<close>

definition loop_entry_state :: "world \<Rightarrow> string list \<Rightarrow> int option \<Rightarrow> sys \<Rightarrow> sys" where
  "loop_entry_state w al fpa s =
     emit (Print ProcessingVideoFrames)
       (emit (TempDirCreated (mkdtemp w))
          ((emits [Print (PropDuration (of_int (cap_frame_count w) / cap_fps w)),
                   Print (PropActions al),
                   Print (PropFramesPerAction (resolved_fpa w al fpa))]
              (emits [Print VideoPropertiesHeader, Print (PropResolution (cap_width w) (cap_height w)),
                      Print (PropTotalFrames (cap_frame_count w)), Print (PropFPS (cap_fps w))]
                 (case fpa of
                    None \<Rightarrow> emit (Print (CalculatedFramesPerAction (resolved_fpa w al fpa))) s
                  | Some n \<Rightarrow> s)))\<lparr>temp_dir_exists := True\<rparr>))"

text \<open>Events that the body of the with-block may produce.\<close>

definition body_event :: "world \<Rightarrow> string \<Rightarrow> event \<Rightarrow> bool" where
  "body_event w out e \<longleftrightarrow>
     (\<exists>m. e = Print m) \<or> loop_event e
     \<or> e = WriterOpened out ''mp4v'' (cap_fps w) (cap_width w, cap_height w)
     \<or> e = FfmpegRun (fst (get_ffmpeg_command (str_float w) (ffmpeg_version_probe w) (ffmpeg_codecs w)
                (path_join (mkdtemp w) ''frame_%06d.png'') out (cap_fps w) (cap_width w) (cap_height w)))"

subsection \<open>Concrete inputs\<close>

definition demo_frame :: frame where
  "demo_frame = \<lparr>frame_height = 480, frame_width = 640, pixels = 0, drawn = []\<rparr>"

definition demo_text_size :: "string \<Rightarrow> int \<times> int" where
  "demo_text_size txt = (40, 44)"

definition demo_world :: world where
  "demo_world =
     \<lparr>cap_isOpened = True, cap_width = 640, cap_height = 480, cap_frame_count = 2, cap_fps = 30,
      cap_reads = [Some demo_frame, Some demo_frame],
      imwrite_ok = (\<lambda>n. True),
      mkdtemp = ''/tmp/tmpq'',
      ffmpeg_check = ProcDone 0 ''ffmpeg version 5.1.2'' [],
      ffmpeg_version_probe = Some 5,
      ffmpeg_codecs = ProcDone 0 ''DEV.LS h264 (encoders: libx264)'' [],
      ffmpeg_run = (\<lambda>cmd. ProcDone 1 [] ''Conversion failed!''),
      reopen_isOpened = True,
      reopen_reads = [Some demo_frame, Some demo_frame],
      writer_isOpened = True,
      getTextSize = demo_text_size,
      str_float = (\<lambda>r. ''30.0'')\<rparr>"

section \<open>Properties of the action mapping\<close>

lemma lower_wasd:
  "lower ''w'' = ''w''" "lower ''a'' = ''a''" "lower ''s'' = ''s''" "lower ''d'' = ''d''"
  by (simp_all add: lower_def lower_char_def)

text \<open>
  C4: for a frame index (0-based, so not negative), a positive frames_per_action and a
  non-empty action list, the mapper returns the lower-cased action at index
  \<open>frame_index div frames_per_action\<close> when that index is inside the list and no label
  otherwise: the mapping does not wrap around. For any int as frame index the same holds
  with \<^verbatim>\<open>actions[i]\<close> read as Python reads it. With 100 frames, the actions w, a, s, d and
  frames_per_action left out, the computed frames_per_action is 25 and the label is w at
  frame 24, a at frame 25 and d at frame 99.
\<close>

theorem mapper_non_cyclic:
  "(0 \<le> frame_index \<and> 0 < fpa \<and> action_list \<noteq> [] \<longrightarrow>
      current_action action_list frame_index (Some fpa) total_frames =
        (if frame_index div fpa < int (length action_list)
         then Inr (Some (lower (action_list ! nat (frame_index div fpa))))
         else Inr None))
   \<and> (0 < fpa \<and> action_list \<noteq> [] \<longrightarrow>
      current_action action_list frame_index (Some fpa) total_frames =
        (if frame_index div fpa < int (length action_list)
         then (case py_getitem action_list (frame_index div fpa) of
                 Inl e \<Rightarrow> Inl e
               | Inr a \<Rightarrow> Inr (Some (lower a)))
         else Inr None))
   \<and> py_floordiv 100 (int (length [''w'', ''a'', ''s'', ''d''])) = Inr 25
   \<and> current_action [''w'', ''a'', ''s'', ''d''] 24 None (Some 100) = Inr (Some ''w'')
   \<and> current_action [''w'', ''a'', ''s'', ''d''] 25 None (Some 100) = Inr (Some ''a'')
   \<and> current_action [''w'', ''a'', ''s'', ''d''] 99 None (Some 100) = Inr (Some ''d'')"
proof -
  have general: "current_action action_list frame_index (Some fpa) total_frames =
        (if frame_index div fpa < int (length action_list)
         then Inr (Some (lower (action_list ! nat (frame_index div fpa))))
         else Inr None)"
    if "0 \<le> frame_index" "0 < fpa" "action_list \<noteq> []"
  proof -
    from that have "0 \<le> frame_index div fpa"
      by (simp add: pos_imp_zdiv_nonneg_iff)
    then show ?thesis
      using that by (cases total_frames) (simp_all add: current_action_def py_getitem_def Let_def)
  qed
  have python: "current_action action_list frame_index (Some fpa) total_frames =
        (if frame_index div fpa < int (length action_list)
         then (case py_getitem action_list (frame_index div fpa) of
                 Inl e \<Rightarrow> Inl e
               | Inr a \<Rightarrow> Inr (Some (lower a)))
         else Inr None)"
    if "0 < fpa" "action_list \<noteq> []"
    using that by (cases total_frames) (simp_all add: current_action_def Let_def)
  have e0: "py_floordiv 100 (int (length [''w'', ''a'', ''s'', ''d''])) = Inr 25"
    by (simp add: py_floordiv_def)
  have e1: "current_action [''w'', ''a'', ''s'', ''d''] 24 None (Some 100) = Inr (Some ''w'')"
    by (simp add: current_action_def py_floordiv_def py_getitem_def lower_wasd)
  have e2: "current_action [''w'', ''a'', ''s'', ''d''] 25 None (Some 100) = Inr (Some ''a'')"
    by (simp add: current_action_def py_floordiv_def py_getitem_def lower_wasd)
  have e3: "current_action [''w'', ''a'', ''s'', ''d''] 99 None (Some 100) = Inr (Some ''d'')"
    by (simp add: current_action_def py_floordiv_def py_getitem_def lower_wasd)
  from general python e0 e1 e2 e3 show ?thesis by blast
qed

theorem mapper_non_cyclic_witness:
  "(0::int) \<le> 130 \<and> (0::int) < 25 \<and> [''W'', ''a'', ''S'', ''d''] \<noteq> []
   \<and> current_action [''W'', ''a'', ''S'', ''d''] 60 (Some 25) None = Inr (Some ''s'')
   \<and> current_action [''W'', ''a'', ''S'', ''d''] 130 (Some 25) None = Inr None"
  using mapper_non_cyclic [of 60 25 "[''W'', ''a'', ''S'', ''d'']" None]
        mapper_non_cyclic [of 130 25 "[''W'', ''a'', ''S'', ''d'']" None]
  by (simp add: lower_def lower_char_def)

text \<open>
  C5, as the code has it: for a non-empty action list the mapper returns no label when
  frames_per_action is 0, and when frames_per_action and total_frames are both undefined.
  When frames_per_action is undefined and total_frames is given, frames_per_action is
  computed as \<open>total_frames div length action_list\<close> and the mapping goes on with it (so
  there is no label when the quotient is 0). In none of these cases is a division error
  raised.
\<close>

theorem mapper_zero_or_undefined:
  "action_list \<noteq> [] \<longrightarrow>
     current_action action_list frame_index (Some 0) total_frames = Inr None
   \<and> current_action action_list frame_index None None = Inr None
   \<and> current_action action_list frame_index None (Some n) =
       current_action action_list frame_index (Some (n div int (length action_list))) (Some n)
   \<and> (n div int (length action_list) = 0 \<longrightarrow>
        current_action action_list frame_index None (Some n) = Inr None)
   \<and> (frames_per_action = None \<or> frames_per_action = Some 0 \<longrightarrow>
        current_action action_list frame_index frames_per_action total_frames \<noteq> Inl ZeroDivisionError)"
proof
  assume ne: "action_list \<noteq> []"
  have a: "current_action action_list frame_index (Some 0) total_frames = Inr None"
    by (cases total_frames) (simp_all add: current_action_def)
  have b: "current_action action_list frame_index None None = Inr None"
    by (simp add: current_action_def)
  have c: "current_action action_list frame_index None (Some m) =
       current_action action_list frame_index (Some (m div int (length action_list))) (Some m)" for m
    using ne by (simp add: current_action_def py_floordiv_def)
  have d: "current_action action_list frame_index None (Some n) = Inr None"
    if "n div int (length action_list) = 0"
    using that ne by (simp add: current_action_def py_floordiv_def)
  have e: "current_action action_list frame_index frames_per_action total_frames \<noteq> Inl ZeroDivisionError"
    if "frames_per_action = None \<or> frames_per_action = Some 0"
  proof (cases total_frames)
    case None
    with that show ?thesis by (auto simp add: current_action_def)
  next
    case (Some m)
    show ?thesis
      using that ne Some
      by (auto simp add: current_action_def py_floordiv_def py_getitem_def Let_def split: if_splits)
  qed
  from a b c d e show "current_action action_list frame_index (Some 0) total_frames = Inr None
   \<and> current_action action_list frame_index None None = Inr None
   \<and> current_action action_list frame_index None (Some n) =
       current_action action_list frame_index (Some (n div int (length action_list))) (Some n)
   \<and> (n div int (length action_list) = 0 \<longrightarrow>
        current_action action_list frame_index None (Some n) = Inr None)
   \<and> (frames_per_action = None \<or> frames_per_action = Some 0 \<longrightarrow>
        current_action action_list frame_index frames_per_action total_frames \<noteq> Inl ZeroDivisionError)"
    by blast
qed

theorem mapper_zero_or_undefined_witness:
  "[''w'', ''a'', ''s'', ''d''] \<noteq> []
   \<and> current_action [''w'', ''a'', ''s'', ''d''] 7 (Some 0) (Some 100) = Inr None
   \<and> current_action [''w'', ''a'', ''s'', ''d''] 7 None None = Inr None
   \<and> current_action [''w'', ''a'', ''s'', ''d''] 7 None (Some 3) = Inr None
   \<and> current_action [''w'', ''a'', ''s'', ''d''] 7 None (Some 100)
       = current_action [''w'', ''a'', ''s'', ''d''] 7 (Some 25) (Some 100)"
  using mapper_zero_or_undefined [of "[''w'', ''a'', ''s'', ''d'']" 7 "Some 3" 3 None]
        mapper_zero_or_undefined [of "[''w'', ''a'', ''s'', ''d'']" 7 "Some 100" 100 "Some 0"]
  by simp

text \<open>
  The claim C5 as stated fails: with frames_per_action undefined and a total of 100 frames,
  frame 0 of the actions w, a, s, d is mapped to the label w, not to no label.
\<close>

theorem mapper_undefined_counterexample:
  "current_action [''w'', ''a'', ''s'', ''d''] 0 None (Some 100) = Inr (Some ''w'')
   \<and> current_action [''w'', ''a'', ''s'', ''d''] 0 None (Some 100) \<noteq> Inr None"
  by (simp add: current_action_def py_floordiv_def py_getitem_def lower_wasd)

section \<open>Properties of the icon overlay\<close>

lemma filled_rectangles_append:
  "filled_rectangles (xs @ ys) = filled_rectangles xs @ filled_rectangles ys"
  by (induction xs rule: filled_rectangles.induct) simp_all

lemma filled_rectangles_icon:
  "filled_rectangles (icon_draws ts cur (key, (x, y))) = [((x - 40, y - 40), (x + 40, y + 40))]"
  by (simp add: icon_draws_def Let_def)

text \<open>
  C9 says that the upper icon sits directly above the middle icon of the row of three.
  The code draws a W/A/S/D key cluster under the comment "Icon positions (centered
  horizontally)": the row a, s, d is symmetric about \<open>center_x\<close>, but the entry for w
  repeats the \<open>center_x - icon_spacing\<close> of a instead of \<open>center_x\<close>. So, whatever the
  actions, the frame number and the active label, the overlay draws four filled squares,
  each reaching 40 pixels from its centre in every direction (80 across), at centres that
  depend on the frame's width and height only: w at \<open>(width div 2 - 100, height - 250)\<close>,
  a at \<open>(width div 2 - 100, height - 150)\<close>, s at \<open>(width div 2, height - 150)\<close> and d at
  \<open>(width div 2 + 100, height - 150)\<close>. The size, the dependence on width and height only
  and the row of three are as C9 says; the upper icon (w) is in the column of the left
  icon (a), not in the column of the middle one (s).
\<close>

theorem icon_layout:
  "create_icon_overlay ts f action_list frame_number fps frames_per_action total_frames = Inr f' \<longrightarrow>
     icon_positions (frame_height f) (frame_width f) =
       [(''w'', (frame_width f div 2 - 100, frame_height f - 250)),
        (''a'', (frame_width f div 2 - 100, frame_height f - 150)),
        (''s'', (frame_width f div 2, frame_height f - 150)),
        (''d'', (frame_width f div 2 + 100, frame_height f - 150))]
   \<and> filled_rectangles (drawn f') = filled_rectangles (drawn f) @
       [((frame_width f div 2 - 140, frame_height f - 290), (frame_width f div 2 - 60, frame_height f - 210)),
        ((frame_width f div 2 - 140, frame_height f - 190), (frame_width f div 2 - 60, frame_height f - 110)),
        ((frame_width f div 2 - 40, frame_height f - 190), (frame_width f div 2 + 40, frame_height f - 110)),
        ((frame_width f div 2 + 60, frame_height f - 190), (frame_width f div 2 + 140, frame_height f - 110))]
   \<and> frame_height f' = frame_height f \<and> frame_width f' = frame_width f \<and> pixels f' = pixels f"
proof
  assume ok: "create_icon_overlay ts f action_list frame_number fps frames_per_action total_frames = Inr f'"
  then obtain cur where
    f': "f' = foldl (\<lambda>fr icon. fr\<lparr>drawn := drawn fr @ icon_draws ts cur icon\<rparr>) f
               (icon_positions (frame_height f) (frame_width f))"
    by (auto simp add: create_icon_overlay_def split: sum.splits)
  have pos: "icon_positions (frame_height f) (frame_width f) =
       [(''w'', (frame_width f div 2 - 100, frame_height f - 250)),
        (''a'', (frame_width f div 2 - 100, frame_height f - 150)),
        (''s'', (frame_width f div 2, frame_height f - 150)),
        (''d'', (frame_width f div 2 + 100, frame_height f - 150))]"
    by (simp add: icon_positions_def Let_def)
  have rects: "filled_rectangles (drawn f') = filled_rectangles (drawn f) @
       [((frame_width f div 2 - 140, frame_height f - 290), (frame_width f div 2 - 60, frame_height f - 210)),
        ((frame_width f div 2 - 140, frame_height f - 190), (frame_width f div 2 - 60, frame_height f - 110)),
        ((frame_width f div 2 - 40, frame_height f - 190), (frame_width f div 2 + 40, frame_height f - 110)),
        ((frame_width f div 2 + 60, frame_height f - 190), (frame_width f div 2 + 140, frame_height f - 110))]"
    unfolding f' pos by (simp add: filled_rectangles_append filled_rectangles_icon)
  have same: "frame_height f' = frame_height f \<and> frame_width f' = frame_width f \<and> pixels f' = pixels f"
    unfolding f' pos by simp
  from pos rects same show "icon_positions (frame_height f) (frame_width f) =
       [(''w'', (frame_width f div 2 - 100, frame_height f - 250)),
        (''a'', (frame_width f div 2 - 100, frame_height f - 150)),
        (''s'', (frame_width f div 2, frame_height f - 150)),
        (''d'', (frame_width f div 2 + 100, frame_height f - 150))]
   \<and> filled_rectangles (drawn f') = filled_rectangles (drawn f) @
       [((frame_width f div 2 - 140, frame_height f - 290), (frame_width f div 2 - 60, frame_height f - 210)),
        ((frame_width f div 2 - 140, frame_height f - 190), (frame_width f div 2 - 60, frame_height f - 110)),
        ((frame_width f div 2 - 40, frame_height f - 190), (frame_width f div 2 + 40, frame_height f - 110)),
        ((frame_width f div 2 + 60, frame_height f - 190), (frame_width f div 2 + 140, frame_height f - 110))]
   \<and> frame_height f' = frame_height f \<and> frame_width f' = frame_width f \<and> pixels f' = pixels f"
    by blast
qed

lemma demo_overlay:
  "create_icon_overlay demo_text_size demo_frame [''w'', ''a''] 0 24 (Some 10) (Some 20) =
     Inr (demo_frame\<lparr>drawn :=
            icon_draws demo_text_size (Some ''w'') (''w'', (220, 230))
          @ icon_draws demo_text_size (Some ''w'') (''a'', (220, 330))
          @ icon_draws demo_text_size (Some ''w'') (''s'', (320, 330))
          @ icon_draws demo_text_size (Some ''w'') (''d'', (420, 330))\<rparr>)"
  by (simp add: create_icon_overlay_def current_action_def py_getitem_def lower_def lower_char_def
        icon_positions_def demo_frame_def)

theorem icon_layout_witness:
  "create_icon_overlay demo_text_size demo_frame [''w'', ''a''] 0 24 (Some 10) (Some 20) =
     Inr (demo_frame\<lparr>drawn :=
            icon_draws demo_text_size (Some ''w'') (''w'', (220, 230))
          @ icon_draws demo_text_size (Some ''w'') (''a'', (220, 330))
          @ icon_draws demo_text_size (Some ''w'') (''s'', (320, 330))
          @ icon_draws demo_text_size (Some ''w'') (''d'', (420, 330))\<rparr>)
   \<and> filled_rectangles (drawn (demo_frame\<lparr>drawn :=
            icon_draws demo_text_size (Some ''w'') (''w'', (220, 230))
          @ icon_draws demo_text_size (Some ''w'') (''a'', (220, 330))
          @ icon_draws demo_text_size (Some ''w'') (''s'', (320, 330))
          @ icon_draws demo_text_size (Some ''w'') (''d'', (420, 330))\<rparr>)) =
       [((180, 190), (260, 270)), ((180, 290), (260, 370)),
        ((280, 290), (360, 370)), ((380, 290), (460, 370))]"
  using icon_layout [THEN mp, OF demo_overlay] demo_overlay
  by (simp add: demo_frame_def)

text \<open>
  The positions at a concrete frame: in a frame 640 wide and 480 high the upper icon (w)
  is centred at x = 220, the x of the left icon (a), and the middle icon (s) is at
  x = 320, where the layout that C9 describes has the upper icon.
\<close>

theorem icon_layout_counterexample:
  "map_of (icon_positions 480 640) ''w'' = Some (220, 230)
   \<and> map_of (icon_positions 480 640) ''a'' = Some (220, 330)
   \<and> map_of (icon_positions 480 640) ''s'' = Some (320, 330)
   \<and> fst (the (map_of (icon_positions 480 640) ''w'')) \<noteq> fst (the (map_of (icon_positions 480 640) ''s''))"
  by (simp add: icon_positions_def)

section \<open>Properties of the path functions\<close>







section \<open>Properties of get_ffmpeg_command\<close>

lemma libx264_or_default_cases:
  "fst (libx264_or_default codecs) =
     (if (case codecs of ProcRaised e \<Rightarrow> True | ProcDone rc out err \<Rightarrow> str_contains out ''libx264'')
      then [''-c:v'', ''libx264'', ''-crf'', ''23'']
      else [''-q:v'', ''3''])"
  by (simp add: libx264_or_default_def split: proc.splits)

lemma get_ffmpeg_command_mp4:
  "lower (snd (splitext output_path)) = ''.mp4'' \<Longrightarrow>
   fst (get_ffmpeg_command sf v codecs ip output_path fps width height) =
     [''ffmpeg'', ''-y'', ''-framerate'', sf fps, ''-i'', ip, ''-pix_fmt'', ''yuv420p'', ''-vf'',
      ''scale='' @ str_int width @ '':'' @ str_int height]
     @ fst (libx264_or_default codecs)
     @ (if version_at_least_5 v then [''-preset'', ''medium'', ''-movflags'', ''+faststart''] else [])
     @ [output_path]"
  by (simp add: get_ffmpeg_command_def Let_def split: prod.splits)

lemma get_ffmpeg_command_avi:
  "lower (snd (splitext output_path)) = ''.avi'' \<Longrightarrow>
   fst (get_ffmpeg_command sf v codecs ip output_path fps width height) =
     [''ffmpeg'', ''-y'', ''-framerate'', sf fps, ''-i'', ip, ''-pix_fmt'', ''yuv420p'', ''-vf'',
      ''scale='' @ str_int width @ '':'' @ str_int height]
     @ fst (libx264_or_default codecs)
     @ (if version_at_least_5 v then [''-preset'', ''medium''] else [])
     @ [output_path]"
  by (simp add: get_ffmpeg_command_def Let_def split: prod.splits)


lemma ext_of_flag:
  "lower (snd (splitext ''-c:v'')) = []" "lower (snd (splitext ''-q:v'')) = []"
  "lower (snd (splitext ''-preset'')) = []" "lower (snd (splitext ''-movflags'')) = []"
  "lower (snd (splitext ''libx264'')) = []" "lower (snd (splitext ''+faststart'')) = []"
  by code_simp+

lemma path_with_ext_not_flag:
  assumes "lower (snd (splitext output_path)) \<noteq> []"
  shows "output_path \<notin> {''-c:v'', ''-q:v'', ''-preset'', ''-movflags'', ''libx264'', ''+faststart''}"
  using assms ext_of_flag by auto

text \<open>
  C2, as the code has it: for an mp4 or avi output the command is the common prefix, then
  one codec path, then the version-dependent arguments, then the output path. The codec
  path is the primary codec libx264 with quality 23 when the codec listing contains
  \<open>libx264\<close> and also when the codec-listing call raises; it is the generic quality
  argument \<open>-q:v 3\<close> only when the listing completes without \<open>libx264\<close> in it. For every
  outcome of the probe exactly one of the two paths is among the arguments after the input
  pattern.
\<close>

theorem codec_path_for_probe_outcome:
  "lower (snd (splitext output_path)) = ''.mp4'' \<or> lower (snd (splitext output_path)) = ''.avi'' \<longrightarrow>
   (let cmd = fst (get_ffmpeg_command sf v codecs ip output_path fps width height);
        primary = (case codecs of ProcRaised e \<Rightarrow> True
                   | ProcDone rc out err \<Rightarrow> str_contains out ''libx264'')
    in cmd =
         [''ffmpeg'', ''-y'', ''-framerate'', sf fps, ''-i'', ip, ''-pix_fmt'', ''yuv420p'', ''-vf'',
          ''scale='' @ str_int width @ '':'' @ str_int height]
         @ (if primary then [''-c:v'', ''libx264'', ''-crf'', ''23''] else [''-q:v'', ''3''])
         @ (if version_at_least_5 v
            then (if lower (snd (splitext output_path)) = ''.mp4''
                  then [''-preset'', ''medium'', ''-movflags'', ''+faststart'']
                  else [''-preset'', ''medium''])
            else [])
         @ [output_path]
       \<and> (if primary
           then ''libx264'' \<in> set (drop 6 cmd) \<and> ''-q:v'' \<notin> set (drop 6 cmd)
           else ''-q:v'' \<in> set (drop 6 cmd) \<and> ''libx264'' \<notin> set (drop 6 cmd)
                \<and> ''-c:v'' \<notin> set (drop 6 cmd)))"
proof
  assume ext: "lower (snd (splitext output_path)) = ''.mp4'' \<or> lower (snd (splitext output_path)) = ''.avi''"
  then have "lower (snd (splitext output_path)) \<noteq> []" by auto
  then have nf: "output_path \<notin> {''-c:v'', ''-q:v'', ''-preset'', ''-movflags'', ''libx264'', ''+faststart''}"
    by (rule path_with_ext_not_flag)
  from ext show "(let cmd = fst (get_ffmpeg_command sf v codecs ip output_path fps width height);
        primary = (case codecs of ProcRaised e \<Rightarrow> True
                   | ProcDone rc out err \<Rightarrow> str_contains out ''libx264'')
    in cmd =
         [''ffmpeg'', ''-y'', ''-framerate'', sf fps, ''-i'', ip, ''-pix_fmt'', ''yuv420p'', ''-vf'',
          ''scale='' @ str_int width @ '':'' @ str_int height]
         @ (if primary then [''-c:v'', ''libx264'', ''-crf'', ''23''] else [''-q:v'', ''3''])
         @ (if version_at_least_5 v
            then (if lower (snd (splitext output_path)) = ''.mp4''
                  then [''-preset'', ''medium'', ''-movflags'', ''+faststart'']
                  else [''-preset'', ''medium''])
            else [])
         @ [output_path]
       \<and> (if primary
           then ''libx264'' \<in> set (drop 6 cmd) \<and> ''-q:v'' \<notin> set (drop 6 cmd)
           else ''-q:v'' \<in> set (drop 6 cmd) \<and> ''libx264'' \<notin> set (drop 6 cmd)
                \<and> ''-c:v'' \<notin> set (drop 6 cmd)))"
  proof
    assume "lower (snd (splitext output_path)) = ''.mp4''"
    then show ?thesis
      using nf by (auto simp add: get_ffmpeg_command_mp4 libx264_or_default_cases Let_def)
  next
    assume "lower (snd (splitext output_path)) = ''.avi''"
    then show ?thesis
      using nf by (auto simp add: get_ffmpeg_command_avi libx264_or_default_cases Let_def)
  qed
qed

lemma ext_out_mp4: "lower (snd (splitext ''out.mp4'')) = ''.mp4''"
  by code_simp

lemma str_int_640_480: "str_int 640 = ''640''" "str_int 480 = ''480''"
  by code_simp+

theorem codec_path_for_probe_outcome_witness:
  "(lower (snd (splitext ''out.mp4'')) = ''.mp4'' \<or> lower (snd (splitext ''out.mp4'')) = ''.avi'')
   \<and> fst (get_ffmpeg_command (\<lambda>r. ''24.0'') (Some 4) (ProcDone 0 ''DEV.LS h264'' [])
            ''/tmp/t/frame_%06d.png'' ''out.mp4'' 24 640 480) =
       [''ffmpeg'', ''-y'', ''-framerate'', ''24.0'', ''-i'', ''/tmp/t/frame_%06d.png'',
        ''-pix_fmt'', ''yuv420p'', ''-vf'', ''scale=640:480'', ''-q:v'', ''3'', ''out.mp4'']"
  using codec_path_for_probe_outcome [of "''out.mp4''" "\<lambda>r. ''24.0''" "Some 4"
          "ProcDone 0 ''DEV.LS h264'' []" "''/tmp/t/frame_%06d.png''" 24 640 480]
  by (simp add: ext_out_mp4 str_int_640_480 version_at_least_5_def Let_def)

text \<open>
  The claim C2 as stated fails: when the codec-listing call raises, the command for
  \<open>out.mp4\<close> has the primary codec and no generic quality argument.
\<close>

theorem codec_probe_failure_counterexample:
  "fst (get_ffmpeg_command (\<lambda>r. ''24.0'') (Some 4) (ProcRaised FileNotFoundError)
          ''/tmp/t/frame_%06d.png'' ''out.mp4'' 24 640 480) =
     [''ffmpeg'', ''-y'', ''-framerate'', ''24.0'', ''-i'', ''/tmp/t/frame_%06d.png'',
      ''-pix_fmt'', ''yuv420p'', ''-vf'', ''scale=640:480'',
      ''-c:v'', ''libx264'', ''-crf'', ''23'', ''out.mp4'']
   \<and> ''-q:v'' \<notin> set (fst (get_ffmpeg_command (\<lambda>r. ''24.0'') (Some 4) (ProcRaised FileNotFoundError)
          ''/tmp/t/frame_%06d.png'' ''out.mp4'' 24 640 480))"
  by (simp add: get_ffmpeg_command_mp4 ext_out_mp4 str_int_640_480 libx264_or_default_cases
        version_at_least_5_def)







section \<open>Properties of process_video\<close>

lemma extends_refl: "extends Q s s"
  by (simp add: extends_def)

lemma extends_trans: "extends Q s s' \<Longrightarrow> extends Q s' s'' \<Longrightarrow> extends Q s s''"
  by (fastforce simp add: extends_def)

lemma extends_emit: "Q e \<Longrightarrow> extends Q s s' \<Longrightarrow> extends Q s (emit e s')"
  by (auto simp add: extends_def emit_def)

lemma extends_emits: "\<forall>e \<in> set es. Q e \<Longrightarrow> extends Q s s' \<Longrightarrow> extends Q s (emits es s')"
  by (auto simp add: extends_def emits_def)

lemma extends_mono: "extends Q s s' \<Longrightarrow> (\<And>e. Q e \<Longrightarrow> Q' e) \<Longrightarrow> extends Q' s s'"
  by (auto simp add: extends_def)

lemma extends_filter:
  "extends Q s s' \<Longrightarrow> (\<And>e. Q e \<Longrightarrow> \<not> P e) \<Longrightarrow> filter P (events s') = filter P (events s)"
  by (auto simp add: extends_def)

lemma extends_temp_dir: "extends Q s s' \<Longrightarrow> temp_dir_exists s' = temp_dir_exists s"
  by (simp add: extends_def)

lemma render_loop_extends_render:
  "extends render_event s (snd (render_loop w td al fps fpa tot reads n s))"
proof (induction w td al fps fpa tot reads n s rule: render_loop.induct)
  case (1 w td al fps fpa tot n s)
  show ?case by (simp add: extends_refl)
next
  case (2 w td al fps fpa tot reads n s)
  show ?case by (simp add: extends_refl)
next
  case (3 w td al fps fpa tot frame reads n s)
  show ?case
  proof (cases "create_icon_overlay (getTextSize w) frame al n fps (Some fpa) (Some tot)")
    case (Inl e)
    then show ?thesis by (simp add: extends_refl)
  next
    case (Inr fr)
    define s1 where "s1 = emit (Imwrite (path_join td (''frame_'' @ format_06d n @ ''.png'')) fr (imwrite_ok w n)) s"
    have a: "extends render_event s s1"
      unfolding s1_def by (rule extends_emit) (simp_all add: extends_refl)
    show ?thesis
    proof (cases "(n + 1) mod 100 = 0")
      case True
      note m = True
      show ?thesis
      proof (cases "tot = 0")
        case True
        with m Inr a show ?thesis by (simp add: Let_def s1_def)
      next
        case False
        define s2 where "s2 = emit (Print (Progress (of_int (n + 1) / of_int tot * 100) (n + 1) tot)) s1"
        have b: "extends render_event s s2"
          unfolding s2_def using a by (rule extends_emit [rotated]) simp
        from "3.IH"(1) [OF Inr refl refl refl m False]
        have "extends render_event s2 (snd (render_loop w td al fps fpa tot reads (n + 1) s2))"
          by (simp add: s2_def s1_def)
        with b have "extends render_event s (snd (render_loop w td al fps fpa tot reads (n + 1) s2))"
          by (rule extends_trans)
        with m False Inr show ?thesis by (simp add: Let_def s1_def s2_def)
      qed
    next
      case False
      from "3.IH"(2) [OF Inr refl refl refl False]
      have "extends render_event s1 (snd (render_loop w td al fps fpa tot reads (n + 1) s1))"
        by (simp add: s1_def)
      with a have "extends render_event s (snd (render_loop w td al fps fpa tot reads (n + 1) s1))"
        by (rule extends_trans)
      with False Inr show ?thesis by (simp add: Let_def s1_def)
    qed
  qed
qed

lemma render_event_loop_event: "render_event e \<Longrightarrow> loop_event e"
  by (induction e rule: render_event.induct) simp_all

lemma render_loop_extends:
  "extends loop_event s (snd (render_loop w td al fps fpa tot reads n s))"
  using render_loop_extends_render by (rule extends_mono) (rule render_event_loop_event)

lemma fallback_loop_extends:
  "extends loop_event s (snd (fallback_loop w al fps fpa tot reads n s))"
proof (induction w al fps fpa tot reads n s rule: fallback_loop.induct)
  case (1 w al fps fpa tot n s)
  show ?case by (simp add: extends_refl)
next
  case (2 w al fps fpa tot reads n s)
  show ?case by (simp add: extends_refl)
next
  case (3 w al fps fpa tot frame reads n s)
  show ?case
  proof (cases "create_icon_overlay (getTextSize w) frame al n fps (Some fpa) (Some tot)")
    case (Inl e)
    then show ?thesis by (simp add: extends_refl)
  next
    case (Inr fr)
    define s1 where "s1 = emit (WriterWrite fr) s"
    have a: "extends loop_event s s1"
      unfolding s1_def by (rule extends_emit) (simp_all add: extends_refl)
    show ?thesis
    proof (cases "(n + 1) mod 100 = 0")
      case True
      note m = True
      show ?thesis
      proof (cases "tot = 0")
        case True
        with m Inr a show ?thesis by (simp add: Let_def s1_def)
      next
        case False
        define s2 where "s2 = emit (Print (FallbackProgress (of_int (n + 1) / of_int tot * 100) (n + 1) tot)) s1"
        have b: "extends loop_event s s2"
          unfolding s2_def using a by (rule extends_emit [rotated]) simp
        from "3.IH"(1) [OF Inr refl refl m False]
        have "extends loop_event s2 (snd (fallback_loop w al fps fpa tot reads (n + 1) s2))"
          by (simp add: s2_def s1_def)
        with b have "extends loop_event s (snd (fallback_loop w al fps fpa tot reads (n + 1) s2))"
          by (rule extends_trans)
        with m False Inr show ?thesis by (simp add: Let_def s1_def s2_def)
      qed
    next
      case False
      from "3.IH"(2) [OF Inr refl refl False]
      have "extends loop_event s1 (snd (fallback_loop w al fps fpa tot reads (n + 1) s1))"
        by (simp add: s1_def)
      with a have "extends loop_event s (snd (fallback_loop w al fps fpa tot reads (n + 1) s1))"
        by (rule extends_trans)
      with False Inr show ?thesis by (simp add: Let_def s1_def)
    qed
  qed
qed

lemma fallback_encode_extends:
  assumes Q: "\<And>m. Q (Print m)" "\<And>e. loop_event e \<Longrightarrow> Q e"
             "Q (WriterOpened out ''mp4v'' fps (width, height))"
    and s: "extends Q s0 s"
  shows "extends Q s0 (snd (fallback_encode w i out al fps fpa tot width height s))"
proof -
  define s2 where "s2 = emit (WriterOpened out ''mp4v'' fps (width, height)) (emit (Print FfmpegNotAvailable) s)"
  have e2: "extends Q s0 s2"
    unfolding s2_def by (intro extends_emit Q s)
  obtain r s3 where loop: "fallback_loop w al fps fpa tot (reopen_reads w) 0 s2 = (r, s3)"
    by (cases "fallback_loop w al fps fpa tot (reopen_reads w) 0 s2")
  have "extends loop_event s2 s3"
    using fallback_loop_extends [of s2 w al fps fpa tot "reopen_reads w" 0] loop by simp
  then have "extends Q s2 s3" by (rule extends_mono) (rule Q)
  with e2 have e3: "extends Q s0 s3" by (rule extends_trans)
  show ?thesis
  proof (cases "reopen_isOpened w")
    case False
    then show ?thesis
      by (simp add: fallback_encode_def Let_def) (intro extends_emit Q s)
  next
    case True
    note op = True
    show ?thesis
    proof (cases "writer_isOpened w")
      case False
      with op show ?thesis
        by (simp add: fallback_encode_def Let_def) (intro extends_emit Q s)
    next
      case True
      show ?thesis
      proof (cases r)
        case (Inl e)
        with op True loop [unfolded s2_def] show ?thesis
          by (simp add: fallback_encode_def Let_def) (intro extends_emit Q e3)
      next
        case (Inr k)
        with op True loop [unfolded s2_def] show ?thesis
          by (simp add: fallback_encode_def Let_def) (intro extends_emits e3, simp add: Q)
      qed
    qed
  qed
qed

lemma encode_except_extends:
  assumes Q: "\<And>m. Q (Print m)" "\<And>e. loop_event e \<Longrightarrow> Q e"
             "Q (WriterOpened out ''mp4v'' fps (width, height))"
    and s: "extends Q s0 s"
  shows "extends Q s0 (snd (encode_except w i out al fps fpa tot width height e s))"
proof (cases "e = FileNotFoundError \<or> e = CalledProcessError")
  case True
  have "extends Q s0 (snd (fallback_encode w i out al fps fpa tot width height s))"
  proof (rule fallback_encode_extends)
    show "Q (Print m)" for m by (rule Q(1))
    show "Q e" if "loop_event e" for e using that by (rule Q(2))
    show "Q (WriterOpened out ''mp4v'' fps (width, height))" by (rule Q(3))
    show "extends Q s0 s" by (rule s)
  qed
  with True show ?thesis by (simp add: encode_except_def)
next
  case False
  then show ?thesis
    by (simp add: encode_except_def) (intro extends_emit Q s)
qed

lemma encode_stage_extends:
  assumes Q: "\<And>m. Q (Print m)" "\<And>e. loop_event e \<Longrightarrow> Q e"
             "Q (WriterOpened out ''mp4v'' fps (width, height))"
             "Q (FfmpegRun (fst (get_ffmpeg_command (str_float w) (ffmpeg_version_probe w) (ffmpeg_codecs w)
                     (path_join td ''frame_%06d.png'') out fps width height)))"
    and s: "extends Q s0 s"
  shows "extends Q s0 (snd (encode_stage w i out al fps fpa tot width height td s))"
proof -
  have ex: "extends Q s0 (snd (encode_except w i out al fps fpa tot width height e s'))"
    if s': "extends Q s0 s'" for e s'
  proof (rule encode_except_extends)
    show "Q (Print m)" for m by (rule Q(1))
    show "Q e" if "loop_event e" for e using that by (rule Q(2))
    show "Q (WriterOpened out ''mp4v'' fps (width, height))" by (rule Q(3))
    show "extends Q s0 s'" by (rule s')
  qed
  obtain cmd printed where g: "get_ffmpeg_command (str_float w) (ffmpeg_version_probe w) (ffmpeg_codecs w)
                     (path_join td ''frame_%06d.png'') out fps width height = (cmd, printed)"
    by (cases "get_ffmpeg_command (str_float w) (ffmpeg_version_probe w) (ffmpeg_codecs w)
                     (path_join td ''frame_%06d.png'') out fps width height")
  with Q(4) have qc: "Q (FfmpegRun cmd)" by simp
  define s3 where "s3 = emit (FfmpegRun cmd) (emit (Print (RunningFfmpegCommand cmd)) (emits (map Print printed) s))"
  have e3: "extends Q s0 s3"
    unfolding s3_def by (intro extends_emit extends_emits Q qc s) (auto simp add: Q)
  show ?thesis
  proof (cases "ffmpeg_check w")
    case (ProcRaised e)
    then show ?thesis by (simp add: encode_stage_def ex [OF s])
  next
    case (ProcDone rc so se)
    note chk = ProcDone
    show ?thesis
    proof (cases "rc = 0")
      case False
      with chk show ?thesis by (simp add: encode_stage_def ex [OF s])
    next
      case True
      show ?thesis
      proof (cases "ffmpeg_run w cmd")
        case (ProcRaised e)
        with chk True g show ?thesis
          by (simp add: encode_stage_def Let_def ex [OF e3 [unfolded s3_def]])
      next
        case (ProcDone rc2 so2 se2)
        have e4: "extends Q s0 (emits [Print (FfmpegErrorText se2), Print FallingBackToOpenCV] s3)"
          by (intro extends_emits e3) (simp add: Q)
        have e5: "extends Q s0 (emits [Print EncodingComplete, Print (OutputSavedTo out)] s3)"
          by (intro extends_emits e3) (simp add: Q)
        from chk True g ProcDone show ?thesis
          by (simp add: encode_stage_def Let_def ex [OF e4 [unfolded s3_def]] e5 [unfolded s3_def])
      qed
    qed
  qed
qed

lemma process_video_entered:
  assumes "entered w al fpa"
  shows "process_video w i out al fps fpa s =
     (case render_loop w (mkdtemp w) al (cap_fps w) (resolved_fpa w al fpa) (cap_frame_count w)
             (cap_reads w) 0 (loop_entry_state w al fpa s) of
        (Inl e, s2) \<Rightarrow> (Inl e, emit (TempDirRemoved (mkdtemp w)) (s2\<lparr>temp_dir_exists := False\<rparr>))
      | (Inr k, s2) \<Rightarrow>
          (case encode_stage w i out al (cap_fps w) (resolved_fpa w al fpa) (cap_frame_count w)
                  (cap_width w) (cap_height w) (mkdtemp w) (emit (Print FramesProcessed) s2) of
             (r, s3) \<Rightarrow> (Inr r, emit (TempDirRemoved (mkdtemp w)) (s3\<lparr>temp_dir_exists := False\<rparr>))))"
proof (cases fpa)
  case None
  with assms show ?thesis
    by (simp add: entered_def process_video_def with_TemporaryDirectory_def py_floordiv_def Let_def
          resolved_fpa_def loop_entry_state_def split: prod.splits sum.splits)
next
  case (Some n)
  with assms show ?thesis
    by (simp add: entered_def process_video_def with_TemporaryDirectory_def Let_def
          resolved_fpa_def loop_entry_state_def split: prod.splits sum.splits)
qed

lemma process_video_not_entered:
  assumes "\<not> entered w al fpa"
  shows "\<exists>ms. snd (process_video w i out al fps fpa s) = emits (map Print ms) s"
proof (cases "cap_isOpened w")
  case False
  then have "snd (process_video w i out al fps fpa s) = emits (map Print [CouldNotOpenVideo i]) s"
    by (simp add: process_video_def emit_def emits_def)
  then show ?thesis by blast
next
  case True
  note op = True
  show ?thesis
  proof (cases "fpa = None \<and> al = []")
    case True
    with op have "snd (process_video w i out al fps fpa s) = emits (map Print []) s"
      by (simp add: process_video_def py_floordiv_def Let_def emits_def)
    then show ?thesis by blast
  next
    case False
    with assms op have z: "cap_fps w = 0" by (auto simp add: entered_def)
    show ?thesis
    proof (cases fpa)
      case None
      with False op z have "snd (process_video w i out al fps fpa s) =
          emits (map Print [CalculatedFramesPerAction (cap_frame_count w div int (length al)),
                   VideoPropertiesHeader, PropResolution (cap_width w) (cap_height w),
                   PropTotalFrames (cap_frame_count w), PropFPS (cap_fps w)]) s"
        by (simp add: process_video_def py_floordiv_def Let_def emits_def emit_def)
      then show ?thesis by blast
    next
      case (Some n)
      with op z have "snd (process_video w i out al fps fpa s) =
          emits (map Print [VideoPropertiesHeader, PropResolution (cap_width w) (cap_height w),
                   PropTotalFrames (cap_frame_count w), PropFPS (cap_fps w)]) s"
        by (simp add: process_video_def Let_def emits_def emit_def)
      then show ?thesis by blast
    qed
  qed
qed

lemma loop_entry_state_events:
  "\<exists>ms. events (loop_entry_state w al fpa s) =
          events s @ map Print ms @ [TempDirCreated (mkdtemp w), Print ProcessingVideoFrames]"
proof (cases fpa)
  case None
  have "events (loop_entry_state w al fpa s) =
          events s @ map Print [CalculatedFramesPerAction (resolved_fpa w al fpa),
             VideoPropertiesHeader, PropResolution (cap_width w) (cap_height w),
             PropTotalFrames (cap_frame_count w), PropFPS (cap_fps w),
             PropDuration (of_int (cap_frame_count w) / cap_fps w),
             PropActions al, PropFramesPerAction (resolved_fpa w al fpa)]
          @ [TempDirCreated (mkdtemp w), Print ProcessingVideoFrames]"
    using None by (simp add: loop_entry_state_def emit_def emits_def)
  then show ?thesis by blast
next
  case (Some n)
  have "events (loop_entry_state w al fpa s) =
          events s @ map Print [
             VideoPropertiesHeader, PropResolution (cap_width w) (cap_height w),
             PropTotalFrames (cap_frame_count w), PropFPS (cap_fps w),
             PropDuration (of_int (cap_frame_count w) / cap_fps w),
             PropActions al, PropFramesPerAction (resolved_fpa w al fpa)]
          @ [TempDirCreated (mkdtemp w), Print ProcessingVideoFrames]"
    using Some by (simp add: loop_entry_state_def emit_def emits_def)
  then show ?thesis by blast
qed

lemma process_video_entered_events:
  assumes "entered w al fpa"
  shows "\<exists>ms es. events (snd (process_video w i out al fps fpa s)) =
            events s @ map Print ms @ [TempDirCreated (mkdtemp w), Print ProcessingVideoFrames]
              @ es @ [TempDirRemoved (mkdtemp w)]
          \<and> (\<forall>e \<in> set es. body_event w out e)
          \<and> \<not> temp_dir_exists (snd (process_video w i out al fps fpa s))"
proof -
  let ?q = "resolved_fpa w al fpa"
  let ?s1 = "loop_entry_state w al fpa s"
  obtain ms where ms: "events ?s1 = events s @ map Print ms @ [TempDirCreated (mkdtemp w), Print ProcessingVideoFrames]"
    using loop_entry_state_events by blast
  obtain r s2 where loop: "render_loop w (mkdtemp w) al (cap_fps w) ?q (cap_frame_count w)
             (cap_reads w) 0 ?s1 = (r, s2)"
    by (cases "render_loop w (mkdtemp w) al (cap_fps w) ?q (cap_frame_count w) (cap_reads w) 0 ?s1")
  have "extends loop_event ?s1 s2"
    using render_loop_extends [of ?s1 w "mkdtemp w" al "cap_fps w" ?q "cap_frame_count w" "cap_reads w" 0] loop
    by simp
  then have x2: "extends (body_event w out) ?s1 s2"
    by (rule extends_mono) (simp add: body_event_def)
  obtain r3 s3 where enc: "encode_stage w i out al (cap_fps w) ?q (cap_frame_count w)
                  (cap_width w) (cap_height w) (mkdtemp w) (emit (Print FramesProcessed) s2) = (r3, s3)"
    by (cases "encode_stage w i out al (cap_fps w) ?q (cap_frame_count w)
                  (cap_width w) (cap_height w) (mkdtemp w) (emit (Print FramesProcessed) s2)")
  have "extends (body_event w out) ?s1 (snd (encode_stage w i out al (cap_fps w) ?q (cap_frame_count w)
                  (cap_width w) (cap_height w) (mkdtemp w) (emit (Print FramesProcessed) s2)))"
  proof (rule encode_stage_extends)
    show "body_event w out (Print m)" for m by (simp add: body_event_def)
    show "body_event w out e" if "loop_event e" for e using that by (simp add: body_event_def)
    show "body_event w out (WriterOpened out ''mp4v'' (cap_fps w) (cap_width w, cap_height w))"
      by (simp add: body_event_def)
    show "body_event w out (FfmpegRun (fst (get_ffmpeg_command (str_float w) (ffmpeg_version_probe w)
             (ffmpeg_codecs w) (path_join (mkdtemp w) ''frame_%06d.png'') out (cap_fps w)
             (cap_width w) (cap_height w))))"
      by (simp add: body_event_def)
    show "extends (body_event w out) ?s1 (emit (Print FramesProcessed) s2)"
      by (rule extends_emit) (simp_all add: body_event_def x2)
  qed
  with enc have x3: "extends (body_event w out) ?s1 s3" by simp
  define X where "X = (case r of Inl e \<Rightarrow> s2 | Inr k \<Rightarrow> s3)"
  have xX: "extends (body_event w out) ?s1 X"
    unfolding X_def using x2 x3 by (cases r) simp_all
  then obtain es where es: "events X = events ?s1 @ es" "\<forall>e \<in> set es. body_event w out e"
    by (auto simp add: extends_def)
  have fin: "snd (process_video w i out al fps fpa s) = emit (TempDirRemoved (mkdtemp w)) (X\<lparr>temp_dir_exists := False\<rparr>)"
    unfolding X_def using loop enc by (cases r) (simp_all add: process_video_entered [OF assms])
  have "events (snd (process_video w i out al fps fpa s)) =
            events s @ map Print ms @ [TempDirCreated (mkdtemp w), Print ProcessingVideoFrames]
              @ es @ [TempDirRemoved (mkdtemp w)]"
    by (simp add: fin emit_def es ms)
  moreover have "\<not> temp_dir_exists (snd (process_video w i out al fps fpa s))"
    by (simp add: fin emit_def)
  ultimately show ?thesis using es(2) by blast
qed

lemma body_event_not_temp: "body_event w out e \<Longrightarrow> \<not> is_temp_event e"
  by (cases e) (auto simp add: body_event_def)

lemma filter_temp_prints: "filter is_temp_event (map Print ms) = []"
  by (induction ms) simp_all

lemma filter_encoder_prints: "filter is_encoder_event (map Print ms) = []"
  by (induction ms) simp_all

text \<open>
  C3: whatever way a run of process_video ends (a return after a successful encode, after
  the fallback or after a failure, or an exception that leaves the function), no temporary
  directory exists afterwards. A run that reaches the frame loop creates the directory once
  and removes it once, and the removal is the last thing the run does; a run that ends
  before the frame loop creates none and removes none.
\<close>

theorem temporary_directory_released:
  "(\<not> temp_dir_exists s \<longrightarrow> \<not> temp_dir_exists (snd (process_video w i out al fps fpa s)))
   \<and> filter is_temp_event (events (snd (process_video w i out al fps fpa s))) =
       filter is_temp_event (events s) @
       (if cap_isOpened w \<and> (fpa = None \<longrightarrow> al \<noteq> []) \<and> cap_fps w \<noteq> 0
        then [TempDirCreated (mkdtemp w), TempDirRemoved (mkdtemp w)] else [])
   \<and> (cap_isOpened w \<and> (fpa = None \<longrightarrow> al \<noteq> []) \<and> cap_fps w \<noteq> 0 \<longrightarrow>
        \<not> temp_dir_exists (snd (process_video w i out al fps fpa s))
        \<and> last (events (snd (process_video w i out al fps fpa s))) = TempDirRemoved (mkdtemp w))"
proof (cases "entered w al fpa")
  case True
  then have cond: "cap_isOpened w \<and> (fpa = None \<longrightarrow> al \<noteq> []) \<and> cap_fps w \<noteq> 0"
    by (simp add: entered_def)
  from process_video_entered_events [OF True, of i out fps s]
  obtain ms es where
    ev: "events (snd (process_video w i out al fps fpa s)) =
            events s @ map Print ms @ [TempDirCreated (mkdtemp w), Print ProcessingVideoFrames]
              @ es @ [TempDirRemoved (mkdtemp w)]"
    and es: "\<forall>e \<in> set es. body_event w out e"
    and gone: "\<not> temp_dir_exists (snd (process_video w i out al fps fpa s))"
    by blast
  from es have "filter is_temp_event es = []"
    by (auto simp add: filter_empty_conv dest: body_event_not_temp)
  then have "filter is_temp_event (events (snd (process_video w i out al fps fpa s))) =
       filter is_temp_event (events s) @ [TempDirCreated (mkdtemp w), TempDirRemoved (mkdtemp w)]"
    by (simp add: ev filter_temp_prints)
  moreover have "last (events (snd (process_video w i out al fps fpa s))) = TempDirRemoved (mkdtemp w)"
    by (simp add: ev)
  ultimately show ?thesis using gone cond by simp
next
  case False
  then have cond: "\<not> (cap_isOpened w \<and> (fpa = None \<longrightarrow> al \<noteq> []) \<and> cap_fps w \<noteq> 0)"
    by (simp add: entered_def)
  from process_video_not_entered [OF False, of i out fps s]
  obtain ms where "snd (process_video w i out al fps fpa s) = emits (map Print ms) s"
    by blast
  then have "temp_dir_exists (snd (process_video w i out al fps fpa s)) = temp_dir_exists s"
    and "filter is_temp_event (events (snd (process_video w i out al fps fpa s))) =
       filter is_temp_event (events s)"
    by (simp_all add: emits_def filter_temp_prints)
  with cond show ?thesis by auto
qed

theorem temporary_directory_released_witness:
  "\<not> temp_dir_exists sys0
   \<and> cap_isOpened demo_world \<and> [''w'', ''a''] \<noteq> [] \<and> cap_fps demo_world \<noteq> 0
   \<and> \<not> temp_dir_exists (snd (process_video demo_world ''in.mp4'' ''out.mp4'' [''w'', ''a''] 24 None sys0))
   \<and> filter is_temp_event (events (snd (process_video demo_world ''in.mp4'' ''out.mp4'' [''w'', ''a''] 24 None sys0)))
       = [TempDirCreated ''/tmp/tmpq'', TempDirRemoved ''/tmp/tmpq'']
   \<and> last (events (snd (process_video demo_world ''in.mp4'' ''out.mp4'' [''w'', ''a''] 24 None sys0)))
       = TempDirRemoved ''/tmp/tmpq''"
  using temporary_directory_released [of sys0 demo_world "''in.mp4''" "''out.mp4''" "[''w'', ''a'']" 24 None]
  by (simp add: sys0_def demo_world_def)

text \<open>
  C7, as the code has it: the caller's frame rate argument is not used at all, so a run
  with one value of it is the same as a run with any other; the ffmpeg command is built
  with the frame rate measured on the source, and the fallback writer, when it is opened,
  is opened with that measured frame rate too.
\<close>

theorem frame_rate_hint_unused:
  "process_video w i out al fps fpa s = process_video w i out al fps' fpa s
   \<and> (\<forall>e \<in> set (events (snd (process_video w i out al fps fpa s))).
        is_encoder_event e \<longrightarrow>
          e \<in> set (events s)
          \<or> e = FfmpegRun (fst (get_ffmpeg_command (str_float w) (ffmpeg_version_probe w) (ffmpeg_codecs w)
                   (path_join (mkdtemp w) ''frame_%06d.png'') out (cap_fps w) (cap_width w) (cap_height w)))
          \<or> e = WriterOpened out ''mp4v'' (cap_fps w) (cap_width w, cap_height w))"
proof
  show "process_video w i out al fps fpa s = process_video w i out al fps' fpa s"
    by (simp add: process_video_def)
  show "\<forall>e \<in> set (events (snd (process_video w i out al fps fpa s))).
        is_encoder_event e \<longrightarrow>
          e \<in> set (events s)
          \<or> e = FfmpegRun (fst (get_ffmpeg_command (str_float w) (ffmpeg_version_probe w) (ffmpeg_codecs w)
                   (path_join (mkdtemp w) ''frame_%06d.png'') out (cap_fps w) (cap_width w) (cap_height w)))
          \<or> e = WriterOpened out ''mp4v'' (cap_fps w) (cap_width w, cap_height w)"
  proof (intro ballI impI)
    fix e
    assume mem: "e \<in> set (events (snd (process_video w i out al fps fpa s)))"
      and enc: "is_encoder_event e"
    show "e \<in> set (events s)
          \<or> e = FfmpegRun (fst (get_ffmpeg_command (str_float w) (ffmpeg_version_probe w) (ffmpeg_codecs w)
                   (path_join (mkdtemp w) ''frame_%06d.png'') out (cap_fps w) (cap_width w) (cap_height w)))
          \<or> e = WriterOpened out ''mp4v'' (cap_fps w) (cap_width w, cap_height w)"
    proof (cases "entered w al fpa")
      case True
      from process_video_entered_events [OF True, of i out fps s]
      obtain ms es where
        ev: "events (snd (process_video w i out al fps fpa s)) =
            events s @ map Print ms @ [TempDirCreated (mkdtemp w), Print ProcessingVideoFrames]
              @ es @ [TempDirRemoved (mkdtemp w)]"
        and es: "\<forall>e \<in> set es. body_event w out e"
        by blast
      from mem enc have "e \<in> set (events s) \<or> e \<in> set es"
        by (auto simp add: ev)
      then show ?thesis
      proof
        assume "e \<in> set (events s)"
        then show ?thesis by simp
      next
        assume "e \<in> set es"
        with es have "body_event w out e" by blast
        with enc show ?thesis by (cases e) (auto simp add: body_event_def)
      qed
    next
      case False
      from process_video_not_entered [OF False, of i out fps s]
      obtain ms where "snd (process_video w i out al fps fpa s) = emits (map Print ms) s"
        by blast
      with mem enc show ?thesis by (auto simp add: emits_def)
    qed
  qed
qed

lemma demo_fallback_encoder_events:
  "filter is_encoder_event (events (snd (process_video
      (demo_world\<lparr>ffmpeg_check := ProcRaised FileNotFoundError\<rparr>)
      ''in.mp4'' ''out.mp4'' [''w'', ''a''] 24 None sys0)))
   = [WriterOpened ''out.mp4'' ''mp4v'' 30 (640, 480)]"
  by code_simp

theorem frame_rate_hint_unused_witness:
  "WriterOpened ''out.mp4'' ''mp4v'' 30 (640, 480)
     \<in> set (events (snd (process_video (demo_world\<lparr>ffmpeg_check := ProcRaised FileNotFoundError\<rparr>)
                ''in.mp4'' ''out.mp4'' [''w'', ''a''] 24 None sys0)))
   \<and> is_encoder_event (WriterOpened ''out.mp4'' ''mp4v'' 30 (640, 480))
   \<and> cap_fps (demo_world\<lparr>ffmpeg_check := ProcRaised FileNotFoundError\<rparr>) = 30
   \<and> process_video (demo_world\<lparr>ffmpeg_check := ProcRaised FileNotFoundError\<rparr>)
        ''in.mp4'' ''out.mp4'' [''w'', ''a''] 24 None sys0
     = process_video (demo_world\<lparr>ffmpeg_check := ProcRaised FileNotFoundError\<rparr>)
        ''in.mp4'' ''out.mp4'' [''w'', ''a''] 60 None sys0"
proof -
  have "WriterOpened ''out.mp4'' ''mp4v'' 30 (640, 480)
     \<in> set (filter is_encoder_event (events (snd (process_video
          (demo_world\<lparr>ffmpeg_check := ProcRaised FileNotFoundError\<rparr>)
          ''in.mp4'' ''out.mp4'' [''w'', ''a''] 24 None sys0))))"
    by (simp only: demo_fallback_encoder_events) simp
  then have m: "WriterOpened ''out.mp4'' ''mp4v'' 30 (640, 480)
     \<in> set (events (snd (process_video (demo_world\<lparr>ffmpeg_check := ProcRaised FileNotFoundError\<rparr>)
                ''in.mp4'' ''out.mp4'' [''w'', ''a''] 24 None sys0)))"
    by simp
  have f: "cap_fps (demo_world\<lparr>ffmpeg_check := ProcRaised FileNotFoundError\<rparr>) = 30"
    by (simp add: demo_world_def)
  from frame_rate_hint_unused [of "demo_world\<lparr>ffmpeg_check := ProcRaised FileNotFoundError\<rparr>"
         "''in.mp4''" "''out.mp4''" "[''w'', ''a'']" 24 None sys0 60]
  have "process_video (demo_world\<lparr>ffmpeg_check := ProcRaised FileNotFoundError\<rparr>)
        ''in.mp4'' ''out.mp4'' [''w'', ''a''] 24 None sys0
     = process_video (demo_world\<lparr>ffmpeg_check := ProcRaised FileNotFoundError\<rparr>)
        ''in.mp4'' ''out.mp4'' [''w'', ''a''] 60 None sys0"
    by (rule conjunct1)
  with m f show ?thesis by simp
qed

text \<open>
  The claim C7 as stated fails: in a run with the frame rate argument 24 on a source
  measured at 30 frames per second, with ffmpeg missing, the fallback writer is opened
  with the frame rate 30.
\<close>

theorem fallback_writer_rate_counterexample:
  "filter is_encoder_event (events (snd (process_video
      (demo_world\<lparr>ffmpeg_check := ProcRaised FileNotFoundError\<rparr>)
      ''in.mp4'' ''out.mp4'' [''w'', ''a''] 24 None sys0)))
   = [WriterOpened ''out.mp4'' ''mp4v'' 30 (640, 480)]
   \<and> cap_fps (demo_world\<lparr>ffmpeg_check := ProcRaised FileNotFoundError\<rparr>) = 30
   \<and> (30::rat) \<noteq> 24"
  by (simp add: demo_fallback_encoder_events) (simp add: demo_world_def)

lemma overlay_returns:
  assumes "0 \<le> n" "0 \<le> fpa"
  shows "\<exists>f'. create_icon_overlay ts f al n fps (Some fpa) tf = Inr f'"
proof -
  have "0 \<le> n div fpa" using assms by (simp add: pos_imp_zdiv_nonneg_iff div_int_pos_iff)
  then have "\<exists>c. current_action al n (Some fpa) tf = Inr c"
    by (cases tf) (auto simp add: current_action_def py_getitem_def Let_def)
  then show ?thesis
    by (auto simp add: create_icon_overlay_def)
qed

lemma render_loop_returns:
  "0 \<le> n \<Longrightarrow> 0 \<le> fpa \<Longrightarrow> tot \<noteq> 0 \<Longrightarrow>
   \<exists>k. fst (render_loop w td al fps fpa tot reads n s) = Inr k"
proof (induction reads arbitrary: n s)
  case Nil
  show ?case by simp
next
  case (Cons r reads)
  show ?case
  proof (cases r)
    case None
    then show ?thesis by simp
  next
    case (Some f)
    from overlay_returns [OF Cons.prems(1,2)]
    obtain f' where f': "create_icon_overlay (getTextSize w) f al n fps (Some fpa) (Some tot) = Inr f'"
      by blast
    have n1: "0 \<le> n + 1" using Cons.prems(1) by simp
    from Cons.IH [OF n1 Cons.prems(2,3)] Some f' Cons.prems(3) show ?thesis
      by (simp add: Let_def)
  qed
qed

lemma encode_stage_nonzero_exit:
  assumes chk: "ffmpeg_check w = ProcDone 0 o1 e1"
    and run: "ffmpeg_run w (fst (get_ffmpeg_command (str_float w) (ffmpeg_version_probe w) (ffmpeg_codecs w)
                (path_join td ''frame_%06d.png'') out fps width height)) = ProcDone rc o2 e2"
    and rc: "rc \<noteq> 0"
  shows "encode_stage w i out al fps fpa tot width height td s =
     (FfmpegFailed (Exception ''FFmpeg failed''),
      emit (Print (ErrorRunningFfmpeg (Exception ''FFmpeg failed'')))
        (emits [Print (FfmpegErrorText e2), Print FallingBackToOpenCV]
           (emit (FfmpegRun (fst (get_ffmpeg_command (str_float w) (ffmpeg_version_probe w) (ffmpeg_codecs w)
                (path_join td ''frame_%06d.png'') out fps width height)))
              (emit (Print (RunningFfmpegCommand (fst (get_ffmpeg_command (str_float w) (ffmpeg_version_probe w) (ffmpeg_codecs w)
                (path_join td ''frame_%06d.png'') out fps width height))))
                 (emits (map Print (snd (get_ffmpeg_command (str_float w) (ffmpeg_version_probe w) (ffmpeg_codecs w)
                (path_join td ''frame_%06d.png'') out fps width height))) s)))))"
proof -
  obtain cmd printed where g: "get_ffmpeg_command (str_float w) (ffmpeg_version_probe w) (ffmpeg_codecs w)
                (path_join td ''frame_%06d.png'') out fps width height = (cmd, printed)"
    by (cases "get_ffmpeg_command (str_float w) (ffmpeg_version_probe w) (ffmpeg_codecs w)
                (path_join td ''frame_%06d.png'') out fps width height")
  with run have r: "ffmpeg_run w cmd = ProcDone rc o2 e2" by simp
  show ?thesis
    using chk r rc by (simp add: encode_stage_def encode_except_def Let_def g)
qed

lemma render_event_not_writer: "render_event e \<Longrightarrow> \<not> is_writer_event e"
  by (induction e rule: render_event.induct) simp_all

lemma render_event_not_encoder: "render_event e \<Longrightarrow> \<not> is_encoder_event e"
  by (induction e rule: render_event.induct) simp_all

lemma filter_writer_prints: "filter is_writer_event (map Print ms) = []"
  by (induction ms) simp_all

lemma filter_Imwrite_prints: "filter is_Imwrite (map Print ms) = []"
  by (induction ms) simp_all

lemma resolved_fpa_nonneg:
  assumes "0 \<le> cap_frame_count w" "fpa = None \<or> (\<exists>m. fpa = Some m \<and> 0 \<le> m)"
  shows "0 \<le> resolved_fpa w al fpa"
  using assms by (auto simp add: resolved_fpa_def pos_imp_zdiv_nonneg_iff div_int_pos_iff)

text \<open>
  C1 says that a non-zero exit status of the encoder leads to the fallback. The code
  prints that it falls back and raises a plain \<^verbatim>\<open>Exception\<close>; the handler that holds
  the fallback catches FileNotFoundError and CalledProcessError only, so the last handler
  catches it and the run returns. For every run that reaches the encoder with ffmpeg
  present, a non-zero exit status of the encoding call ends the run with the error
  \<open>FFmpeg failed\<close>, and the fallback writer is neither opened nor written to.
\<close>

theorem nonzero_exit_ends_run:
  assumes "cap_isOpened w" and "cap_fps w \<noteq> 0" and "0 < cap_frame_count w" and "al \<noteq> []"
    and "fpa = None \<or> (\<exists>m. fpa = Some m \<and> 0 \<le> m)"
    and "ffmpeg_check w = ProcDone 0 o1 e1"
    and "ffmpeg_run w (fst (get_ffmpeg_command (str_float w) (ffmpeg_version_probe w) (ffmpeg_codecs w)
            (path_join (mkdtemp w) ''frame_%06d.png'') out (cap_fps w) (cap_width w) (cap_height w)))
         = ProcDone rc o2 e2"
    and "rc \<noteq> 0"
  shows "fst (process_video w i out al fps fpa s) = Inr (FfmpegFailed (Exception ''FFmpeg failed''))
     \<and> filter is_writer_event (events (snd (process_video w i out al fps fpa s)))
         = filter is_writer_event (events s)"
proof -
  let ?q = "resolved_fpa w al fpa"
  let ?s1 = "loop_entry_state w al fpa s"
  have ent: "entered w al fpa" using assms(1,2,4) by (simp add: entered_def)
  have q: "0 \<le> ?q" using assms(3,5) by (intro resolved_fpa_nonneg) simp_all
  have tot: "cap_frame_count w \<noteq> 0" using assms(3) by simp
  obtain r s2 where loop: "render_loop w (mkdtemp w) al (cap_fps w) ?q (cap_frame_count w)
             (cap_reads w) 0 ?s1 = (r, s2)"
    by (cases "render_loop w (mkdtemp w) al (cap_fps w) ?q (cap_frame_count w) (cap_reads w) 0 ?s1")
  from render_loop_returns [OF _ q tot, of 0 w "mkdtemp w" al "cap_fps w" "cap_reads w" ?s1] loop
  obtain k where r: "r = Inr k" by auto
  have "extends render_event ?s1 s2"
    using render_loop_extends_render [of ?s1 w "mkdtemp w" al "cap_fps w" ?q "cap_frame_count w" "cap_reads w" 0] loop
    by simp
  then have f2: "filter is_writer_event (events s2) = filter is_writer_event (events ?s1)"
    by (rule extends_filter) (rule render_event_not_writer)
  obtain ms where ms: "events ?s1 = events s @ map Print ms @ [TempDirCreated (mkdtemp w), Print ProcessingVideoFrames]"
    using loop_entry_state_events by blast
  have f1: "filter is_writer_event (events ?s1) = filter is_writer_event (events s)"
    by (simp add: ms filter_writer_prints)
  note enc = encode_stage_nonzero_exit [OF assms(6,7,8), of i al ?q "cap_frame_count w" "emit (Print FramesProcessed) s2"]
  define s3 where "s3 = snd (encode_stage w i out al (cap_fps w) ?q (cap_frame_count w)
      (cap_width w) (cap_height w) (mkdtemp w) (emit (Print FramesProcessed) s2))"
  have pv: "process_video w i out al fps fpa s =
      (Inr (FfmpegFailed (Exception ''FFmpeg failed'')),
       emit (TempDirRemoved (mkdtemp w)) (s3\<lparr>temp_dir_exists := False\<rparr>))"
    unfolding s3_def by (simp add: process_video_entered [OF ent] loop r enc)
  have res: "fst (process_video w i out al fps fpa s) = Inr (FfmpegFailed (Exception ''FFmpeg failed''))"
    by (simp add: pv)
  have "filter is_writer_event (events s3) = filter is_writer_event (events s2)"
    unfolding s3_def enc by (simp add: emit_def emits_def filter_writer_prints)
  then have "filter is_writer_event (events (snd (process_video w i out al fps fpa s)))
         = filter is_writer_event (events s2)"
    by (simp add: pv emit_def)
  with f1 f2 res show ?thesis by simp
qed

theorem nonzero_exit_ends_run_witness:
  "cap_isOpened demo_world \<and> cap_fps demo_world \<noteq> 0 \<and> 0 < cap_frame_count demo_world
   \<and> ffmpeg_check demo_world = ProcDone 0 ''ffmpeg version 5.1.2'' []
   \<and> ffmpeg_run demo_world
        (fst (get_ffmpeg_command (str_float demo_world) (ffmpeg_version_probe demo_world)
           (ffmpeg_codecs demo_world) (path_join (mkdtemp demo_world) ''frame_%06d.png'') ''out.mp4''
           (cap_fps demo_world) (cap_width demo_world) (cap_height demo_world)))
      = ProcDone 1 [] ''Conversion failed!''
   \<and> fst (process_video demo_world ''in.mp4'' ''out.mp4'' [''w'', ''a''] 24 None sys0)
       = Inr (FfmpegFailed (Exception ''FFmpeg failed''))
   \<and> filter is_writer_event (events (snd (process_video demo_world ''in.mp4'' ''out.mp4'' [''w'', ''a''] 24 None sys0)))
       = []"
proof -
  have a: "cap_isOpened demo_world" "cap_fps demo_world \<noteq> 0" "0 < cap_frame_count demo_world"
    "[''w'', ''a''] \<noteq> []" "None = None \<or> (\<exists>m. None = Some m \<and> (0::int) \<le> m)"
    "ffmpeg_check demo_world = ProcDone 0 ''ffmpeg version 5.1.2'' []"
    by (simp_all add: demo_world_def)
  have b: "ffmpeg_run demo_world
        (fst (get_ffmpeg_command (str_float demo_world) (ffmpeg_version_probe demo_world)
           (ffmpeg_codecs demo_world) (path_join (mkdtemp demo_world) ''frame_%06d.png'') ''out.mp4''
           (cap_fps demo_world) (cap_width demo_world) (cap_height demo_world)))
      = ProcDone 1 [] ''Conversion failed!''"
    by (simp add: demo_world_def)
  have c: "(1::int) \<noteq> 0" by simp
  from nonzero_exit_ends_run [OF a b c, of "''in.mp4''" 24 sys0] a(1,2,3,6) b
  show ?thesis by (simp add: sys0_def)
qed

lemma render_loop_zero_total:
  "0 \<le> fpa \<Longrightarrow> 0 \<le> c \<Longrightarrow> c < 100 \<Longrightarrow> length fs = nat (100 - c) \<Longrightarrow>
     fst (render_loop w td al fps fpa 0 (map Some fs @ rest) c s) = Inl ZeroDivisionError
     \<and> length (filter is_Imwrite (events (snd (render_loop w td al fps fpa 0 (map Some fs @ rest) c s))))
         = length (filter is_Imwrite (events s)) + nat (100 - c)"
proof (induction fs arbitrary: c s)
  case Nil
  then show ?case by simp
next
  case (Cons f fs)
  from overlay_returns [OF Cons.prems(2,1)]
  obtain f' where f': "create_icon_overlay (getTextSize w) f al c fps (Some fpa) (Some 0) = Inr f'"
    by blast
  define s1 where "s1 = emit (Imwrite (path_join td (''frame_'' @ format_06d c @ ''.png'')) f' (imwrite_ok w c)) s"
  have cnt: "length (filter is_Imwrite (events s1)) = length (filter is_Imwrite (events s)) + 1"
    by (simp add: s1_def emit_def)
  show ?case
  proof (cases "c = 99")
    case True
    then show ?thesis
      using f' cnt by (simp add: Let_def s1_def)
  next
    case False
    with Cons.prems have m: "(c + 1) mod 100 \<noteq> 0" and lt: "c + 1 < 100" and nn: "0 \<le> c + 1"
      and len: "length fs = nat (100 - (c + 1))"
      by auto
    from Cons.IH [OF Cons.prems(1) nn lt len, of s1] f' m cnt Cons.prems(2,3)
    show ?thesis
      by (simp add: Let_def s1_def nat_diff_distrib')
  qed
qed

text \<open>
  C10, as the code has it: when the source opens, reports a total of 0 frames and a frame
  rate other than 0, and delivers at least 100 frames, with a non-empty action list when
  frames_per_action is left out and a frames_per_action that is not negative when it is
  given, then process_video is left by a ZeroDivisionError after exactly 100 frames have
  been rendered and handed to the image writer, that is in the progress report of frame
  100. No encoder is started, and the temporary directory is removed on the way out.
\<close>

theorem zero_total_progress_division:
  assumes "cap_isOpened w" and "cap_frame_count w = 0" and "cap_fps w \<noteq> 0"
    and "fpa = None \<and> al \<noteq> [] \<or> (\<exists>m. fpa = Some m \<and> 0 \<le> m)"
    and "cap_reads w = map Some fs @ rest" and "length fs = 100"
  shows "fst (process_video w i out al fps fpa s) = Inl ZeroDivisionError
     \<and> length (filter is_Imwrite (events (snd (process_video w i out al fps fpa s))))
         = length (filter is_Imwrite (events s)) + 100
     \<and> filter is_encoder_event (events (snd (process_video w i out al fps fpa s)))
         = filter is_encoder_event (events s)
     \<and> last (events (snd (process_video w i out al fps fpa s))) = TempDirRemoved (mkdtemp w)
     \<and> \<not> temp_dir_exists (snd (process_video w i out al fps fpa s))"
proof -
  let ?q = "resolved_fpa w al fpa"
  let ?s1 = "loop_entry_state w al fpa s"
  have ent: "entered w al fpa" using assms(1,3,4) by (auto simp add: entered_def)
  have q: "0 \<le> ?q" using assms(2,4) by (intro resolved_fpa_nonneg) auto
  obtain r s2 where loop: "render_loop w (mkdtemp w) al (cap_fps w) ?q 0
             (map Some fs @ rest) 0 ?s1 = (r, s2)"
    by (cases "render_loop w (mkdtemp w) al (cap_fps w) ?q 0 (map Some fs @ rest) 0 ?s1")
  from render_loop_zero_total [OF q, of 0 fs w "mkdtemp w" al "cap_fps w" rest ?s1] assms(6) loop
  have r: "r = Inl ZeroDivisionError"
    and cnt: "length (filter is_Imwrite (events s2)) = length (filter is_Imwrite (events ?s1)) + 100"
    by simp_all
  have "extends render_event ?s1 s2"
    using render_loop_extends_render [of ?s1 w "mkdtemp w" al "cap_fps w" ?q 0 "map Some fs @ rest" 0] loop
    by simp
  then have f2: "filter is_encoder_event (events s2) = filter is_encoder_event (events ?s1)"
    by (rule extends_filter) (rule render_event_not_encoder)
  obtain ms where ms: "events ?s1 = events s @ map Print ms @ [TempDirCreated (mkdtemp w), Print ProcessingVideoFrames]"
    using loop_entry_state_events by blast
  have pv: "process_video w i out al fps fpa s =
      (Inl ZeroDivisionError, emit (TempDirRemoved (mkdtemp w)) (s2\<lparr>temp_dir_exists := False\<rparr>))"
    using loop r by (simp add: process_video_entered [OF ent] assms(2,5))
  have "length (filter is_Imwrite (events (snd (process_video w i out al fps fpa s))))
         = length (filter is_Imwrite (events s)) + 100"
    by (simp add: pv emit_def cnt ms filter_Imwrite_prints)
  moreover have "filter is_encoder_event (events (snd (process_video w i out al fps fpa s)))
         = filter is_encoder_event (events s)"
    by (simp add: pv emit_def f2 ms filter_encoder_prints)
  ultimately show ?thesis
    by (simp add: pv emit_def)
qed

theorem zero_total_progress_division_witness:
  "cap_isOpened (demo_world\<lparr>cap_frame_count := 0, cap_reads := replicate 100 (Some demo_frame)\<rparr>)
   \<and> cap_frame_count (demo_world\<lparr>cap_frame_count := 0, cap_reads := replicate 100 (Some demo_frame)\<rparr>) = 0
   \<and> cap_fps (demo_world\<lparr>cap_frame_count := 0, cap_reads := replicate 100 (Some demo_frame)\<rparr>) \<noteq> 0
   \<and> cap_reads (demo_world\<lparr>cap_frame_count := 0, cap_reads := replicate 100 (Some demo_frame)\<rparr>)
       = map Some (replicate 100 demo_frame) @ []
   \<and> length (replicate 100 demo_frame) = 100
   \<and> fst (process_video (demo_world\<lparr>cap_frame_count := 0, cap_reads := replicate 100 (Some demo_frame)\<rparr>)
            ''in.mp4'' ''out.mp4'' [''w'', ''a''] 24 None sys0) = Inl ZeroDivisionError
   \<and> length (filter is_Imwrite (events (snd (process_video
            (demo_world\<lparr>cap_frame_count := 0, cap_reads := replicate 100 (Some demo_frame)\<rparr>)
            ''in.mp4'' ''out.mp4'' [''w'', ''a''] 24 None sys0)))) = 100"
proof -
  let ?w = "demo_world\<lparr>cap_frame_count := 0, cap_reads := replicate 100 (Some demo_frame)\<rparr>"
  have a: "cap_isOpened ?w" "cap_frame_count ?w = 0" "cap_fps ?w \<noteq> 0"
    "None = None \<and> [''w'', ''a''] \<noteq> [] \<or> (\<exists>m. None = Some m \<and> (0::int) \<le> m)"
    "cap_reads ?w = map Some (replicate 100 demo_frame) @ []"
    "length (replicate 100 demo_frame) = 100"
    by (simp_all add: demo_world_def)
  from zero_total_progress_division [OF a, of "''in.mp4''" "''out.mp4''" 24 sys0] a
  show ?thesis by (simp add: sys0_def)
qed

text \<open>
  The claim C10 as stated fails: a source that reports 0 frames and also a frame rate of 0
  makes line 283 (the duration) divide by zero before the temporary directory is created
  and before any frame is read, so the exception does not come from the progress report.
\<close>

theorem zero_fps_counterexample:
  "process_video (demo_world\<lparr>cap_frame_count := 0, cap_fps := 0,
                              cap_reads := replicate 100 (Some demo_frame)\<rparr>)
       ''in.mp4'' ''out.mp4'' [''w'', ''a''] 24 None sys0
   = (Inl ZeroDivisionError,
      \<lparr>temp_dir_exists = False,
       events = [Print (CalculatedFramesPerAction 0), Print VideoPropertiesHeader,
                 Print (PropResolution 640 480), Print (PropTotalFrames 0), Print (PropFPS 0)]\<rparr>)"
  by (simp add: process_video_def demo_world_def sys0_def py_floordiv_def emit_def emits_def)







end
